theory Spec2Isabelle
  imports Complex_Main "HOL-Library.Word" "HOL-Library.Sublist"
begin

unbundle bit_operations_syntax

section \<open>Bytes, and the part of Python's struct module the reader uses\<close>

text \<open>
  A Python \<open>bytes\<close>/\<open>bytearray\<close> value is a list of 8-bit words. \<open>bytes_in sub buf\<close> is
  Python's \<open>sub in buf\<close>; \<open>split1 sep buf\<close> is \<open>buf.split(sep, 1)\<close> for a separator that
  occurs in \<open>buf\<close>: the bytes before the first occurrence and the bytes after it. The
  source only calls \<open>split\<close> under the guard \<open>sep in buf\<close>.
\<close>

type_synonym byte = "8 word"
type_synonym bytes = "byte list"

fun bytes_in :: "bytes \<Rightarrow> bytes \<Rightarrow> bool" where
  "bytes_in sub [] = (sub = [])"
| "bytes_in sub (x # xs) = (prefix sub (x # xs) \<or> bytes_in sub xs)"

fun split1 :: "bytes \<Rightarrow> bytes \<Rightarrow> bytes \<times> bytes" where
  "split1 sep [] = ([], [])"
| "split1 sep (x # xs) =
     (if prefix sep (x # xs) then ([], drop (length sep) (x # xs))
      else (case split1 sep xs of (before, after) \<Rightarrow> (x # before, after)))"

text \<open>
  The exceptions that the modelled code can raise.
\<close>

datatype error =
  KeyError | StructError | IndexError | TypeError | AttributeError | RuntimeError string

text \<open>
  A struct format is a sequence of repeat counts with a type code: \<open>'4f'\<close> is
  \<open>[(4, Cf)]\<close> and \<open>'7f5?'\<close> is \<open>[(7, Cf), (5, Cq)]\<close>. Code \<open>f\<close> is a 4-byte IEEE
  binary32 value, kept here as its 32-bit pattern (the host is little-endian); code
  \<open>?\<close> is one byte, true when it is not zero. Both formats of the reader start with
  the floats, so native alignment adds no padding and \<open>calcsize\<close> is the plain sum.
\<close>

datatype fcode = Cf | Cq

type_synonym format = "(nat \<times> fcode) list"

datatype sval = VFloat "32 word" | VBool bool

fun code_size :: "fcode \<Rightarrow> nat" where
  "code_size Cf = 4"
| "code_size Cq = 1"

fun calcsize :: "format \<Rightarrow> nat" where
  "calcsize [] = 0"
| "calcsize ((n, c) # fs) = n * code_size c + calcsize fs"

definition unpack_f :: "bytes \<Rightarrow> 32 word" where
  "unpack_f bs =
     ucast (bs ! 0) OR push_bit 8 (ucast (bs ! 1)) OR
     push_bit 16 (ucast (bs ! 2)) OR push_bit 24 (ucast (bs ! 3))"

fun unpack_one :: "fcode \<Rightarrow> bytes \<Rightarrow> sval" where
  "unpack_one Cf bs = VFloat (unpack_f bs)"
| "unpack_one Cq bs = VBool (bs ! 0 \<noteq> 0)"

fun unpack_rep :: "fcode \<Rightarrow> nat \<Rightarrow> bytes \<Rightarrow> sval list" where
  "unpack_rep c 0 bs = []"
| "unpack_rep c (Suc n) bs = unpack_one c bs # unpack_rep c n (drop (code_size c) bs)"

fun unpack_items :: "format \<Rightarrow> bytes \<Rightarrow> sval list" where
  "unpack_items [] bs = []"
| "unpack_items ((n, c) # fs) bs =
     unpack_rep c n bs @ unpack_items fs (drop (n * code_size c) bs)"

text \<open>
  \<open>struct.unpack_from(form, buf)\<close> raises \<open>struct.error\<close> when the buffer holds fewer
  bytes than the format needs, and reads the first \<open>calcsize form\<close> bytes otherwise.
\<close>

definition unpack_from :: "format \<Rightarrow> bytes \<Rightarrow> error + sval list" where
  "unpack_from form bs =
     (if length bs < calcsize form then Inl StructError else Inr (unpack_items form bs))"

text \<open>
  The sender's side, \<open>struct.pack\<close>: the bytes of one value and of a sequence of values,
  and the test that a sequence of values has the kinds a format asks for.
\<close>

fun pack_one :: "sval \<Rightarrow> bytes" where
  "pack_one (VFloat w) =
     [ucast w, ucast (drop_bit 8 w), ucast (drop_bit 16 w), ucast (drop_bit 24 w)]"
| "pack_one (VBool b) = [if b then 1 else 0]"

definition pack :: "sval list \<Rightarrow> bytes" where
  "pack vs = concat (map pack_one vs)"

fun has_code :: "fcode \<Rightarrow> sval \<Rightarrow> bool" where
  "has_code Cf (VFloat w) = True"
| "has_code Cq (VBool b) = True"
| "has_code c v = False"

fun fits :: "format \<Rightarrow> sval list \<Rightarrow> bool" where
  "fits [] vs = (vs = [])"
| "fits ((n, c) # fs) vs =
     (n \<le> length vs \<and> list_all (has_code c) (take n vs) \<and> fits fs (drop n vs))"

section \<open>SerialReaderMultiBinary\<close>

text \<open>
  The class constants: the markers \<open>b'hmd:'\<close>, \<open>b'lc:'\<close>, \<open>b'rc:'\<close>, their
  formats \<open>'4f'\<close> and \<open>'7f5?'\<close>, and the terminator: the bytes tab, carriage return, line feed.
\<close>

definition hmd :: bytes where "hmd = [104, 109, 100, 58]"
definition lc :: bytes where "lc = [108, 99, 58]"
definition rc :: bytes where "rc = [114, 99, 58]"

definition HEADINGS :: "bytes list" where
  "HEADINGS = [hmd, lc, rc]"

definition form_4f :: format where "form_4f = [(4, Cf)]"
definition form_7f5q :: format where "form_7f5q = [(7, Cf), (5, Cq)]"

definition HEADING_FORMS :: "bytes \<rightharpoonup> format" where
  "HEADING_FORMS = [hmd \<mapsto> form_4f, lc \<mapsto> form_7f5q, rc \<mapsto> form_7f5q]"

definition TERMINATOR :: bytes where
  "TERMINATOR = [9, 13, 10]"

type_synonym packet = "bytes \<times> sval list"

text \<open>
  The fields of the reader: the Packetizer's \<open>buffer\<close> and what \<open>__init__\<close> sets.
  \<open>_struct_form\<close> is the type code repeated \<open>struct_len\<close> times.
\<close>

record reader =
  buffer :: bytes
  last_packet :: "packet option"
  struct_form :: format
  struct_len :: nat
  last_headed_packet :: "packet option"

definition init_reader :: "fcode \<Rightarrow> nat \<Rightarrow> nat \<Rightarrow> reader" where
  "init_reader struct_type slen type_len =
     \<lparr>buffer = [], last_packet = None, struct_form = [(slen, struct_type)],
      struct_len = slen * type_len, last_headed_packet = None\<rparr>"


definition handle_packet :: "reader \<Rightarrow> bytes \<times> bytes \<Rightarrow> error + reader" where
  "handle_packet s packet =
     (let header = fst packet; data = snd packet in
      if header \<notin> set HEADINGS then Inr s
      else (case HEADING_FORMS header of
              None \<Rightarrow> Inl KeyError
            | Some form \<Rightarrow>
                (let check = calcsize form; packet_section = take check data in
                 if length packet_section \<noteq> check then Inr s
                 else (case unpack_from form packet_section of
                         Inl e \<Rightarrow> Inl e
                       | Inr vals \<Rightarrow> Inr (s\<lparr>last_packet := Some (header, vals)\<rparr>)))))"

text \<open>
  The \<open>for h in self.HEADINGS\<close> loop of \<open>data_received\<close> over one frame: every heading
  that occurs in the frame is handed to \<open>handle_packet\<close> with the bytes after its first
  occurrence, in the order of the list; an exception ends the loop.
\<close>

fun dispatch :: "bytes list \<Rightarrow> bytes \<Rightarrow> reader \<Rightarrow> error + reader" where
  "dispatch [] packet s = Inr s"
| "dispatch (h # hs) packet s =
     (if bytes_in h packet then
        (case handle_packet s (h, snd (split1 h packet)) of
           Inl e \<Rightarrow> Inl e
         | Inr s' \<Rightarrow> dispatch hs packet s')
      else dispatch hs packet s)"

lemma handle_packet_buffer:
  "handle_packet s p = Inr s' \<Longrightarrow> buffer s' = buffer s"
  by (auto simp: handle_packet_def Let_def split: if_splits option.splits sum.splits)

lemma dispatch_buffer:
  "dispatch hs packet s = Inr s' \<Longrightarrow> buffer s' = buffer s"
  by (induction hs arbitrary: s)
     (auto split: if_splits sum.splits dest: handle_packet_buffer)

lemma split1_length:
  "bytes_in sep xs \<Longrightarrow> sep \<noteq> [] \<Longrightarrow> length (snd (split1 sep xs)) < length xs"
  by (induction xs) (auto split: prod.splits)

text \<open>
  The \<open>while self.TERMINATOR in self.buffer\<close> loop: each round cuts the first frame off
  the buffer, so the buffer gets shorter and the loop ends.
\<close>

function frames_loop :: "reader \<Rightarrow> error + reader" where
  "frames_loop s =
     (if bytes_in TERMINATOR (buffer s) then
        (case split1 TERMINATOR (buffer s) of
           (packet, rest) \<Rightarrow>
             (case dispatch HEADINGS packet (s\<lparr>buffer := rest\<rparr>) of
                Inl e \<Rightarrow> Inl e
              | Inr s' \<Rightarrow> frames_loop s'))
      else Inr s)"
  by pat_completeness auto
termination
  apply (relation "measure (\<lambda>s. length (buffer s))")
   apply simp
  apply (auto dest!: dispatch_buffer)
  apply (metis split1_length snd_conv TERMINATOR_def list.distinct(1))
  done

declare frames_loop.simps [simp del]

definition data_received :: "reader \<Rightarrow> bytes \<Rightarrow> error + reader" where
  "data_received s data = frames_loop (s\<lparr>buffer := buffer s @ data\<rparr>)"

section \<open>Floating-point values\<close>

text \<open>
  A numpy float is either a finite number or one of \<open>nan\<close>, \<open>inf\<close>, \<open>-inf\<close>. The
  three are one value \<open>NonFin\<close> here: \<open>has_nan_in_pose\<close> is the only place that looks
  at them, and it treats them alike. Rounding and overflow are not modelled: a finite
  result is the exact real number. Numpy scalars do not raise on division by zero: a
  finite number divided by zero is \<open>inf\<close>, \<open>-inf\<close> or \<open>nan\<close>. An operation on a
  non-finite operand gives \<open>NonFin\<close>; for a division by \<open>inf\<close> that is right when
  the dividend is not finite either, which is the case wherever \<open>solve_blob_poses\<close>
  divides by a value that can be non-finite. The square roots of the source are taken
  at \<open>1 + v ** 2\<close>, never at a negative number.
\<close>

datatype flt = Fin real | NonFin

instantiation flt :: "{plus, minus, times, inverse}"
begin

fun plus_flt :: "flt \<Rightarrow> flt \<Rightarrow> flt" where
  "plus_flt (Fin a) (Fin b) = Fin (a + b)"
| "plus_flt a b = NonFin"

fun minus_flt :: "flt \<Rightarrow> flt \<Rightarrow> flt" where
  "minus_flt (Fin a) (Fin b) = Fin (a - b)"
| "minus_flt a b = NonFin"

fun times_flt :: "flt \<Rightarrow> flt \<Rightarrow> flt" where
  "times_flt (Fin a) (Fin b) = Fin (a * b)"
| "times_flt a b = NonFin"

fun divide_flt :: "flt \<Rightarrow> flt \<Rightarrow> flt" where
  "divide_flt (Fin a) (Fin b) = (if b = 0 then NonFin else Fin (a / b))"
| "divide_flt a b = NonFin"

fun inverse_flt :: "flt \<Rightarrow> flt" where
  "inverse_flt (Fin a) = (if a = 0 then NonFin else Fin (1 / a))"
| "inverse_flt NonFin = NonFin"

instance ..

end

fun np_sqrt :: "flt \<Rightarrow> flt" where
  "np_sqrt (Fin a) = Fin (sqrt a)"
| "np_sqrt NonFin = NonFin"

text \<open>\<open>np.linalg.norm([x, y])\<close>.\<close>

definition np_norm2 :: "flt \<Rightarrow> flt \<Rightarrow> flt" where
  "np_norm2 x y = np_sqrt (x * x + y * y)"

type_synonym vec = "flt list"
type_synonym matrix = "flt list list"

datatype ndarray = Vec vec | Mat matrix

definition np_zeros :: "nat \<Rightarrow> vec" where
  "np_zeros n = replicate n (Fin 0)"

definition np_eye3 :: matrix where
  "np_eye3 = [[Fin 1, Fin 0, Fin 0], [Fin 0, Fin 1, Fin 0], [Fin 0, Fin 0, Fin 1]]"

definition has_nan_in_pose :: "vec \<Rightarrow> bool" where
  "has_nan_in_pose pose = list_ex (\<lambda>v. v = NonFin) pose"

section \<open>LazyKalman\<close>

text \<open>
  \<open>pykalman.KalmanFilter\<close> is a library outside the repository. Its constructor and
  the three methods that \<open>LazyKalman\<close> calls are parameters of the model, over a type
  \<open>'kf\<close> of filter objects: \<open>kf_new\<close> takes the transition matrices, the observation
  matrices and the initial state mean; \<open>filter_update\<close> takes the filter, the last
  mean and covariance and an observation and returns the next mean and covariance;
  \<open>kf_em\<close> returns the filter fitted to the observations in a number of iterations;
  \<open>kf_filter\<close> returns the filtered means and covariances of a sequence of
  observations.
\<close>

record 'kf pykalman =
  kf_new :: "matrix \<Rightarrow> matrix \<Rightarrow> vec \<Rightarrow> 'kf"
  filter_update :: "'kf \<Rightarrow> vec \<Rightarrow> ndarray \<Rightarrow> vec \<Rightarrow> vec \<times> ndarray"
  kf_em :: "'kf \<Rightarrow> vec list \<Rightarrow> int \<Rightarrow> 'kf"
  kf_filter :: "'kf \<Rightarrow> vec list \<Rightarrow> vec list \<times> ndarray list"

record 'kf lazykalman =
  expected_shape :: "nat list"
  kfilter :: 'kf
  do_learning :: bool
  calibration_countdown :: int
  calibration_observations :: "vec list"
  em_iter :: int
  x_now :: vec
  p_now :: ndarray

definition calibrate :: "'kf lazykalman \<Rightarrow> int \<Rightarrow> int \<Rightarrow> 'kf lazykalman" where
  "calibrate s observations n =
     s\<lparr>calibration_countdown := observations, em_iter := n\<rparr>"

text \<open>
  \<open>__init__\<close>: the defaults of the source are \<open>n_iter = 5\<close> and \<open>train_size = 15\<close>.
  The running mean and covariance start as \<open>np.zeros(3)\<close>, both of them.
\<close>

definition LazyKalman :: "'kf pykalman \<Rightarrow> vec \<Rightarrow> matrix \<Rightarrow> matrix \<Rightarrow> int \<Rightarrow> int \<Rightarrow> 'kf lazykalman" where
  "LazyKalman K init_state transition_matrix observation_matrix n_iter train_size =
     (calibrate
        \<lparr>expected_shape = [length init_state],
         kfilter = kf_new K transition_matrix observation_matrix init_state,
         do_learning = True,
         calibration_countdown = 0,
         calibration_observations = [],
         em_iter = n_iter,
         x_now = [], p_now = Vec []\<rparr>
        train_size n_iter)
     \<lparr>x_now := np_zeros 3, p_now := Vec (np_zeros 3)\<rparr>"

text \<open>
  \<open>_run_calibration\<close>. \<open>f_means[-1, :]\<close> and \<open>f_covars[-1, :]\<close> raise IndexError on
  an array without rows. The object is changed in place, so the state comes back also
  when the call raises.
\<close>

definition run_calibration :: "'kf pykalman \<Rightarrow> 'kf lazykalman \<Rightarrow> error option \<times> 'kf lazykalman" where
  "run_calibration K s =
     (let s1 = s\<lparr>kfilter := kf_em K (kfilter s) (calibration_observations s) (em_iter s)\<rparr>;
          (f_means, f_covars) = kf_filter K (kfilter s1) (calibration_observations s1)
      in if f_means = [] then (Some IndexError, s1)
         else let s2 = s1\<lparr>x_now := last f_means\<rparr>
              in if f_covars = [] then (Some IndexError, s2)
                 else (None, s2\<lparr>p_now := last f_covars, calibration_observations := []\<rparr>))"

text \<open>The first statement of \<open>apply\<close>: the filter update, in one of its two modes.\<close>

definition filter_step :: "'kf pykalman \<Rightarrow> 'kf lazykalman \<Rightarrow> vec \<Rightarrow> 'kf lazykalman" where
  "filter_step K s obz =
     (if do_learning s then
        (case filter_update K (kfilter s) (x_now s) (p_now s) obz of
           (x, p) \<Rightarrow> s\<lparr>x_now := x, p_now := p\<rparr>)
      else
        (case filter_update K (kfilter s) (x_now s) (p_now s) obz of
           (x, p) \<Rightarrow> s\<lparr>x_now := x\<rparr>))"

text \<open>\<open>apply\<close>: the value returned or the exception raised, and the object after the call.\<close>

definition LazyKalman_apply ::
  "'kf pykalman \<Rightarrow> 'kf lazykalman \<Rightarrow> vec \<Rightarrow> (error + vec) \<times> 'kf lazykalman" where
  "LazyKalman_apply K s obz =
     (let s1 = filter_step K s obz in
      if calibration_countdown s1 \<noteq> 0 then
        (let s2 = s1\<lparr>calibration_observations := calibration_observations s1 @ [obz],
                     calibration_countdown := calibration_countdown s1 - 1\<rparr>
         in if calibration_countdown s2 = 0 then
              (case run_calibration K s2 of
                 (Some e, s3) \<Rightarrow> (Inl e, s3)
               | (None, s3) \<Rightarrow> (Inr (x_now s3), s3))
            else (Inr (x_now s2), s2))
      else (Inr (x_now s1), s1))"

text \<open>A caller that feeds a sequence of observations, one \<open>apply\<close> each, until one raises.\<close>

fun apply_each :: "'kf pykalman \<Rightarrow> 'kf lazykalman \<Rightarrow> vec list \<Rightarrow> error option \<times> 'kf lazykalman" where
  "apply_each K s [] = (None, s)"
| "apply_each K s (obz # rest) =
     (case LazyKalman_apply K s obz of
        (Inl e, s') \<Rightarrow> (Some e, s')
      | (Inr x, s') \<Rightarrow> apply_each K s' rest)"

text \<open>
  A stand-in for the library, to run the model on concrete inputs: a filter object is
  the term that records how it was constructed and fitted, the filtered mean is the
  observation itself, and every covariance of a filtered sequence is the identity.
\<close>

datatype kfsym = KalmanFilter matrix matrix vec | Em kfsym "vec list" int

definition symK :: "kfsym pykalman" where
  "symK = \<lparr>kf_new = KalmanFilter,
            filter_update = (\<lambda>kf x p obz. (obz, p)),
            kf_em = Em,
            kf_filter = (\<lambda>kf obs. (obs, map (\<lambda>v. Mat np_eye3) obs))\<rparr>"

text \<open>
  A second stand-in, whose update moves the mean half of the way to the observation.
\<close>

definition midK :: "kfsym pykalman" where
  "midK = \<lparr>kf_new = KalmanFilter,
            filter_update = (\<lambda>kf x p obz. (map2 (\<lambda>a b. (a + b) / Fin 2) x obz, p)),
            kf_em = Em,
            kf_filter = (\<lambda>kf obs. (obs, map (\<lambda>v. Mat np_eye3) obs))\<rparr>"

section \<open>BlobTracker\<close>

text \<open>
  What the tracker takes from outside the file: \<open>BlobFinder.find_blob\<close>, which gives
  the centre and the radius of a blob in an image, or nothing, and may raise; and the
  shape of a frame, height before width. A blob finder is identified with the colour
  mask it was built from. The frame source that \<open>read_updates\<close> returns is the list
  of the outcomes of its coming acquisitions, each a frame or a failure (no frame within
  the bounded wait, or an exception, which \<open>_try_get_frame\<close> catches); a source that
  has run out fails.
\<close>

type_synonym blob = "(real \<times> real) \<times> real"

record ('img, 'mask) vision =
  find_blob :: "'mask \<Rightarrow> 'img option \<Rightarrow> error + blob option"
  frame_shape :: "'img \<Rightarrow> nat \<times> nat"

text \<open>
  The fields of the tracker that the modelled methods read or write. \<open>can_track\<close> does
  not exist before \<open>at_start\<close> sets it; it is \<open>False\<close> until then here.
  \<open>video_src\<close> is the attribute \<open>_vs\<close>.
\<close>

record ('img, 'mask, 'kf) tracker =
  cam_index :: nat
  video_src :: "'img option list option"
  blob_finders :: "'mask list"
  camera_focal_length :: real
  BALL_RADIUS_CM :: real
  frame_height :: "real option"
  frame_width :: "real option"
  poses :: "vec list"
  kalmanFilterz :: "'kf lazykalman option list"
  alive :: bool
  can_track :: bool

definition BlobTracker :: "nat \<Rightarrow> real \<Rightarrow> real \<Rightarrow> 'mask list \<Rightarrow> ('img, 'mask, 'kf) tracker" where
  "BlobTracker cam focal_length_px ball_radius_cm color_masks =
     \<lparr>cam_index = cam, video_src = None, blob_finders = color_masks,
      camera_focal_length = focal_length_px, BALL_RADIUS_CM = ball_radius_cm,
      frame_height = None, frame_width = None,
      poses = replicate (length color_masks) (np_zeros 3),
      kalmanFilterz = replicate (length color_masks) None,
      alive = True, can_track = False\<rparr>"

text \<open>
  \<open>_try_get_frame\<close>: the frame and the flag it returns. With \<open>self._vs\<close> being
  \<open>None\<close> the handler's own \<open>print\<close> reads \<open>self._vs.frames\<close> and raises.
\<close>

definition try_get_frame ::
  "('img, 'mask, 'kf) tracker \<Rightarrow> (error + 'img option \<times> bool) \<times> ('img, 'mask, 'kf) tracker" where
  "try_get_frame t =
     (case video_src t of
        None \<Rightarrow> (Inl AttributeError, t)
      | Some [] \<Rightarrow> (Inr (None, False), t)
      | Some (None # rest) \<Rightarrow> (Inr (None, False), t\<lparr>video_src := Some rest\<rparr>)
      | Some (Some frame # rest) \<Rightarrow> (Inr (Some frame, True), t\<lparr>video_src := Some rest\<rparr>))"

definition at_start ::
  "('img, 'mask) vision \<Rightarrow> 'img option list \<Rightarrow> ('img, 'mask, 'kf) tracker \<Rightarrow>
     error option \<times> ('img, 'mask, 'kf) tracker" where
  "at_start V source t =
     (case try_get_frame (t\<lparr>video_src := Some source\<rparr>) of
        (Inl e, t1) \<Rightarrow> (Some e, t1)
      | (Inr (frame, ct), t1) \<Rightarrow>
          (let t2 = t1\<lparr>can_track := ct\<rparr> in
           if \<not> can_track t2 then (Some (RuntimeError ''invalid video source''), t2\<lparr>video_src := None\<rparr>)
           else (case frame of
                   None \<Rightarrow> (Some AttributeError, t2)
                 | Some f \<Rightarrow>
                     (case frame_shape V f of
                        (h, w) \<Rightarrow> (None, t2\<lparr>frame_height := Some (real h),
                                              frame_width := Some (real w)\<rparr>)))))"

text \<open>
  The arithmetic of \<open>solve_blob_poses\<close> for one blob, from \<open>f_px = ...\<close> to the array
  that is stored in \<open>self.poses[key]\<close>.
\<close>

definition triangulate :: "real \<Rightarrow> real \<Rightarrow> real \<Rightarrow> real \<Rightarrow> blob \<Rightarrow> vec" where
  "triangulate f_px ball_radius_cm width height blob =
     (case blob of ((x, y), w) \<Rightarrow>
        (let a_px = Fin w / Fin 2;
             x_px = Fin x - Fin width / Fin 2;
             y_px = Fin height / Fin 2 - Fin y;
             l_px = np_norm2 x_px y_px;
             k = l_px / Fin f_px;
             j = (l_px + a_px) / Fin f_px;
             l = (j - k) / (Fin 1 + j * k);
             d_cm = Fin ball_radius_cm * np_sqrt (Fin 1 + l * l) / l;
             fl = Fin f_px / l_px;
             z_cm = d_cm * fl / np_sqrt (Fin 1 + fl * fl);
             l_cm = z_cm * k;
             x_cm = l_cm * x_px / l_px;
             y_cm = l_cm * y_px / l_px
         in [x_cm / Fin 100, y_cm / Fin 100, z_cm / Fin 100]))"

text \<open>
  \<open>self.poses[key]\<close> is a numpy view of row \<open>key\<close> of the table, not a copy.
  \<open>LazyKalman.__init__\<close> copies what it is given (\<open>np.array(init_state)\<close>), but
  \<open>apply\<close> appends the very object it is handed to the calibration buffer, and the
  tracker only ever hands it \<open>self.poses[key]\<close>. So every observation in the buffer of
  the filter of a channel is a view of that channel's row and shows what the row holds
  now. The record keeps the values the buffered views show: \<open>set_row\<close>, the
  assignment \<open>self.poses[key] = v\<close>, writes the row and with it every observation that
  the channel's filter has buffered.
\<close>

definition refresh_views :: "vec \<Rightarrow> 'kf lazykalman \<Rightarrow> 'kf lazykalman" where
  "refresh_views row lk =
     lk\<lparr>calibration_observations := map (\<lambda>view. row) (calibration_observations lk)\<rparr>"

definition set_row ::
  "nat \<Rightarrow> vec \<Rightarrow> ('img, 'mask, 'kf) tracker \<Rightarrow> ('img, 'mask, 'kf) tracker" where
  "set_row key v t =
     t\<lparr>poses := (poses t)[key := v],
       kalmanFilterz := (kalmanFilterz t)
          [key := map_option (refresh_views v) (kalmanFilterz t ! key)]\<rparr>"

text \<open>
  The body of the loop of \<open>solve_blob_poses\<close> for the channel \<open>key\<close> with blob finder
  \<open>b\<close>. The tracker is changed in place, so its state comes back also when the body
  raises. Reading the frame size before \<open>at_start\<close> has set it is a TypeError; an
  index beyond the table is an IndexError.
\<close>

definition solve_channel ::
  "('img, 'mask) vision \<Rightarrow> 'kf pykalman \<Rightarrow> 'img option \<Rightarrow> nat \<Rightarrow> 'mask \<Rightarrow>
     ('img, 'mask, 'kf) tracker \<Rightarrow> error option \<times> ('img, 'mask, 'kf) tracker" where
  "solve_channel V K img key b t =
     (case find_blob V b img of
        Inl e \<Rightarrow> (Some e, t)
      | Inr None \<Rightarrow> (None, t)
      | Inr (Some blob) \<Rightarrow>
          (case (frame_width t, frame_height t) of
             (Some width, Some height) \<Rightarrow>
               (if length (poses t) \<le> key then (Some IndexError, t)
                else
                  (let t1 = set_row key
                              (triangulate (camera_focal_length t) (BALL_RADIUS_CM t)
                                 width height blob) t
                   in if \<not> has_nan_in_pose (poses t1 ! key) then
                        (if length (kalmanFilterz t1) \<le> key then (Some IndexError, t1)
                         else
                           (case kalmanFilterz t1 ! key of
                              None \<Rightarrow>
                                (None, t1\<lparr>kalmanFilterz := (kalmanFilterz t1)
                                            [key := Some (LazyKalman K (poses t1 ! key)
                                                            np_eye3 np_eye3 5 15)]\<rparr>)
                            | Some lk \<Rightarrow>
                                (case LazyKalman_apply K lk (poses t1 ! key) of
                                   (Inl e, lk') \<Rightarrow>
                                     (Some e, t1\<lparr>kalmanFilterz :=
                                                    (kalmanFilterz t1)[key := Some lk']\<rparr>)
                                 | (Inr x, lk') \<Rightarrow>
                                     (None, set_row key x
                                              (t1\<lparr>kalmanFilterz :=
                                                    (kalmanFilterz t1)[key := Some lk']\<rparr>)))))
                      else (None, t1)))
           | _ \<Rightarrow> (Some TypeError, t)))"

fun solve_from ::
  "('img, 'mask) vision \<Rightarrow> 'kf pykalman \<Rightarrow> 'img option \<Rightarrow> nat \<Rightarrow> 'mask list \<Rightarrow>
     ('img, 'mask, 'kf) tracker \<Rightarrow> error option \<times> ('img, 'mask, 'kf) tracker" where
  "solve_from V K img key [] t = (None, t)"
| "solve_from V K img key (b # bs) t =
     (case solve_channel V K img key b t of
        (Some e, t') \<Rightarrow> (Some e, t')
      | (None, t') \<Rightarrow> solve_from V K img (Suc key) bs t')"

definition solve_blob_poses ::
  "('img, 'mask) vision \<Rightarrow> 'kf pykalman \<Rightarrow> 'img option \<Rightarrow>
     ('img, 'mask, 'kf) tracker \<Rightarrow> error option \<times> ('img, 'mask, 'kf) tracker" where
  "solve_blob_poses V K img t = solve_from V K img 0 (blob_finders t) t"

text \<open>
  \<open>get_poses\<close> on the tracker taken as a value: the table itself. Where the sharing
  of arrays matters, \<open>get_poses_ref\<close> below is the model.
\<close>

definition get_poses :: "('img, 'mask, 'kf) tracker \<Rightarrow> vec list" where
  "get_poses t = poses t"

text \<open>
  The loop of \<open>run\<close> ends because every round that goes on has taken a frame off
  the source; \<open>solve_blob_poses\<close> touches neither the source nor the two flags.
\<close>

lemma solve_channel_frame:
  "solve_channel V K img key b t = (r, t') \<Longrightarrow>
     video_src t' = video_src t \<and> can_track t' = can_track t \<and> alive t' = alive t"
  by (auto simp: solve_channel_def set_row_def Let_def
      split: sum.splits option.splits if_splits prod.splits)

lemma solve_from_frame:
  "solve_from V K img key bs t = (r, t') \<Longrightarrow>
     video_src t' = video_src t \<and> can_track t' = can_track t \<and> alive t' = alive t"
proof (induction bs arbitrary: key t)
  case Nil
  then show ?case by simp
next
  case (Cons b bs)
  obtain r1 t1 where c: "solve_channel V K img key b t = (r1, t1)"
    by (cases "solve_channel V K img key b t")
  note f = solve_channel_frame [OF c]
  show ?case
  proof (cases r1)
    case None
    with Cons.prems c have "solve_from V K img (Suc key) bs t1 = (r, t')" by simp
    from Cons.IH [OF this] f show ?thesis by simp
  next
    case (Some e)
    with Cons.prems c f show ?thesis by simp
  qed
qed

lemma solve_blob_poses_frame:
  "solve_blob_poses V K img t = (r, t') \<Longrightarrow>
     video_src t' = video_src t \<and> can_track t' = can_track t \<and> alive t' = alive t"
  unfolding solve_blob_poses_def by (rule solve_from_frame)

definition frames_left :: "('img, 'mask, 'kf) tracker \<Rightarrow> nat" where
  "frames_left t = (case video_src t of None \<Rightarrow> 0 | Some fs \<Rightarrow> length fs)"

lemma try_get_frame_shrinks:
  "try_get_frame t = (Inr (frame, True), t') \<Longrightarrow> frames_left t' < frames_left t"
  by (auto simp: try_get_frame_def frames_left_def split: option.splits list.splits)

lemma try_get_frame_keeps:
  "try_get_frame t = (r, t') \<Longrightarrow> alive t' = alive t \<and> can_track t' = can_track t"
  by (auto simp: try_get_frame_def split: option.splits list.splits)

lemma run_loop_decreases:
  assumes "(Inr (frame, ct), t1) = try_get_frame t"
    and "(None, t2) = solve_blob_poses V K frame (t1\<lparr>can_track := ct\<rparr>)"
    and "can_track t2"
  shows "frames_left t2 < frames_left t"
proof -
  from solve_blob_poses_frame [OF assms(2) [symmetric]]
  have a: "video_src t2 = video_src t1" "can_track t2 = ct" by simp_all
  with assms(3) have "ct" by simp
  with assms(1) have "try_get_frame t = (Inr (frame, True), t1)" by simp
  from try_get_frame_shrinks [OF this] a show ?thesis by (simp add: frames_left_def)
qed

text \<open>
  The \<open>while self.alive and self.can_track\<close> loop of \<open>run\<close>: an exception in
  its body is caught and ends the loop, as does a failed acquisition.
\<close>

function run_loop ::
  "('img, 'mask) vision \<Rightarrow> 'kf pykalman \<Rightarrow> ('img, 'mask, 'kf) tracker \<Rightarrow> ('img, 'mask, 'kf) tracker" where
  "run_loop V K t =
     (if alive t \<and> can_track t then
        (case try_get_frame t of
           (Inl e, t1) \<Rightarrow> t1
         | (Inr (frame, ct), t1) \<Rightarrow>
             (case solve_blob_poses V K frame (t1\<lparr>can_track := ct\<rparr>) of
                (Some e, t2) \<Rightarrow> t2
              | (None, t2) \<Rightarrow> if \<not> can_track t2 then t2 else run_loop V K t2))
      else t)"
  by pat_completeness auto
termination
  apply (relation "measure (\<lambda>(V, K, t). frames_left t)")
   apply simp
  apply (auto intro: run_loop_decreases)
  done

declare run_loop.simps [simp del]

text \<open>
  \<open>run\<close>: the exception that leaves it, if any, and the tracker afterwards.
  \<open>at_start\<close> is called outside the \<open>try\<close>, so what it raises leaves \<open>run\<close>.
\<close>

definition run ::
  "('img, 'mask) vision \<Rightarrow> 'kf pykalman \<Rightarrow> 'img option list \<Rightarrow>
     ('img, 'mask, 'kf) tracker \<Rightarrow> error option \<times> ('img, 'mask, 'kf) tracker" where
  "run V K source t =
     (case at_start V source t of
        (Some e, t1) \<Rightarrow> (Some e, t1)
      | (None, t1) \<Rightarrow>
          (case try_get_frame t1 of
             (Inl e, t2) \<Rightarrow> (None, t2\<lparr>alive := False\<rparr>)
           | (Inr (frame, ct), t2) \<Rightarrow>
               (let t3 = t2\<lparr>can_track := ct\<rparr> in
                if \<not> can_track t3 then (None, t3\<lparr>alive := False\<rparr>)
                else (None, (run_loop V K t3)\<lparr>alive := False, can_track := False\<rparr>))))"

text \<open>\<open>stop\<close>, without the bounded \<open>join\<close>.\<close>

definition stop :: "('img, 'mask, 'kf) tracker \<Rightarrow> ('img, 'mask, 'kf) tracker" where
  "stop t = t\<lparr>alive := False, can_track := False\<rparr>"



text \<open>
  A stand-in for the camera side, to run the model on concrete inputs: an image is the
  blob it shows, if any, every image is 480 by 640, and looking for a blob in a missing
  frame raises.
\<close>

definition toy_vision :: "(blob option, 'mask) vision" where
  "toy_vision =
     \<lparr>find_blob = (\<lambda>b img. case img of None \<Rightarrow> Inl TypeError | Some shown \<Rightarrow> Inr shown),
      frame_shape = (\<lambda>img. (480, 640))\<rparr>"

section \<open>The reference formulas of the specification\<close>

text \<open>
  The contract \<open>estimate\<close> of the specification, section 4.2, steps 1 to 8, written
  with the names of the specification and in the same arithmetic as the code.
\<close>

definition estimate :: "blob \<Rightarrow> real \<Rightarrow> real \<Rightarrow> real \<Rightarrow> real \<Rightarrow> vec" where
  "estimate observation focal_length_px frame_width_px frame_height_px ball_radius_cm =
     (case observation of ((x, y), radius) \<Rightarrow>
        (let f = Fin focal_length_px;
             x' = Fin x - Fin frame_width_px / Fin 2;
             y' = Fin frame_height_px / Fin 2 - Fin y;
             l = np_norm2 x' y';
             a = Fin radius / Fin 2;
             k = l / f;
             j = (l + a) / f;
             ratio = (j - k) / (Fin 1 + j * k);
             distance_cm = Fin ball_radius_cm * np_sqrt (Fin 1 + ratio * ratio) / ratio;
             z_cm = distance_cm * (f / l) / np_sqrt (Fin 1 + (f / l) * (f / l));
             radial_cm = z_cm * k;
             x_cm = radial_cm * x' / l;
             y_cm = radial_cm * y' / l
         in [x_cm / Fin 100, y_cm / Fin 100, z_cm / Fin 100]))"

section \<open>Arrays as objects\<close>

text \<open>
  Where it matters which array object a name refers to, the arrays live in a store:
  \<open>arrays h r\<close> is the content of the array with reference \<open>r\<close>, and \<open>next_ref h\<close>
  is the first reference not yet given out. \<open>ndarray_copy\<close> is \<open>a.copy()\<close>: a new
  array with the same content. \<open>setitem\<close> is \<open>a[i] = v\<close>, for a row \<open>v\<close>; it
  changes the array in place and raises IndexError beyond the last row.
  \<open>get_poses_ref\<close> is \<open>get_poses\<close> with \<open>self.poses\<close> given as a reference.
\<close>

record store =
  arrays :: "nat \<Rightarrow> vec list"
  next_ref :: nat

definition ndarray_copy :: "nat \<Rightarrow> store \<Rightarrow> nat \<times> store" where
  "ndarray_copy r h =
     (next_ref h, h\<lparr>arrays := (arrays h)(next_ref h := arrays h r), next_ref := Suc (next_ref h)\<rparr>)"

definition setitem :: "nat \<Rightarrow> nat \<Rightarrow> vec \<Rightarrow> store \<Rightarrow> error + store" where
  "setitem r i v h =
     (if i < length (arrays h r) then Inr (h\<lparr>arrays := (arrays h)(r := (arrays h r)[i := v])\<rparr>)
      else Inl IndexError)"

definition get_poses_ref :: "nat \<Rightarrow> store \<Rightarrow> nat \<times> store" where
  "get_poses_ref self_poses h = ndarray_copy self_poses h"

section \<open>Facts about the reader\<close>

subsection \<open>Unpacking what was packed\<close>

lemma unpack_pack_f: "unpack_f (pack_one (VFloat w) @ R) = w"
  unfolding unpack_f_def
  apply simp
  apply (rule bit_word_eqI)
  subgoal for n
    apply (cases "n < 8"; cases "n < 16"; cases "n < 24")
           apply (auto simp: bit_simps)
    done
  done

lemma unpack_one_pack:
  "has_code c v \<Longrightarrow> unpack_one c (pack_one v @ R) = v \<and> length (pack_one v) = code_size c"
  apply (cases c; cases v)
  using unpack_pack_f apply (auto simp del: pack_one.simps(1))
    apply simp_all
  done

lemma pack_Cons: "pack (v # vs) = pack_one v @ pack vs"
  by (simp add: pack_def)

lemma pack_append: "pack (us @ vs) = pack us @ pack vs"
  by (simp add: pack_def)

lemma unpack_rep_pack:
  "length vs = n \<Longrightarrow> list_all (has_code c) vs \<Longrightarrow>
     unpack_rep c n (pack vs @ R) = vs \<and> length (pack vs) = n * code_size c"
proof (induction vs arbitrary: n)
  case Nil
  then show ?case by (simp add: pack_def)
next
  case (Cons v vs)
  then obtain m where n: "n = Suc m" "length vs = m" by (cases n) auto
  from Cons.prems have hv: "has_code c v" and hvs: "list_all (has_code c) vs" by simp_all
  note one = unpack_one_pack [OF hv]
  note ih = Cons.IH [OF n(2) hvs]
  show ?case using one ih n by (simp add: pack_Cons)
qed

lemma unpack_items_pack:
  "fits form vs \<Longrightarrow> unpack_items form (pack vs @ R) = vs \<and> length (pack vs) = calcsize form"
proof (induction form arbitrary: vs)
  case Nil
  then show ?case by (simp add: pack_def)
next
  case (Cons a form)
  obtain n c where a: "a = (n, c)" by (cases a)
  from Cons.prems a have len: "n \<le> length vs" and all: "list_all (has_code c) (take n vs)"
    and rest: "fits form (drop n vs)" by simp_all
  have split: "pack vs = pack (take n vs) @ pack (drop n vs)"
    by (metis append_take_drop_id pack_append)
  from len have ltk: "length (take n vs) = n" by simp
  note rep = unpack_rep_pack [OF ltk all]
  note ih = Cons.IH [OF rest]
  show ?case using rep ih a by (simp add: split)
qed

subsection \<open>Frames\<close>

lemma split1_sound:
  "bytes_in sep xs \<Longrightarrow> split1 sep xs = (a, b) \<Longrightarrow> xs = a @ sep @ b"
  apply (induction xs arbitrary: a)
   apply (auto split: prod.splits if_splits simp: prefix_def)
  done

lemma no_straddle_aux:
  "\<not> prefix [13, 10] F \<Longrightarrow> \<not> prefix [13, 10 :: byte] (F @ 9 # R)"
  by (cases F; cases "tl F"; auto)

lemma no_term_straddle:
  "\<not> bytes_in TERMINATOR F \<Longrightarrow> bytes_in TERMINATOR (F @ TERMINATOR @ R) \<and> split1 TERMINATOR (F @ TERMINATOR @ R) = (F, R)"
  apply (induction F)
   apply (simp add: TERMINATOR_def)
  apply (auto simp: TERMINATOR_def no_straddle_aux)
  done

lemma frames_loop_done:
  "\<not> bytes_in TERMINATOR (buffer s) \<Longrightarrow> frames_loop s = Inr s"
  by (subst frames_loop.simps) simp

lemma frames_loop_frame:
  "buffer s = F @ TERMINATOR @ R \<Longrightarrow> \<not> bytes_in TERMINATOR F \<Longrightarrow>
     frames_loop s = (case dispatch HEADINGS F (s\<lparr>buffer := R\<rparr>) of
                        Inl e \<Rightarrow> Inl e | Inr s' \<Rightarrow> frames_loop s')"
  by (subst frames_loop.simps) (simp add: no_term_straddle)

lemma HEADING_FORMS_cases:
  "HEADING_FORMS h = Some form \<longleftrightarrow>
     (h = hmd \<and> form = form_4f) \<or> (h = lc \<and> form = form_7f5q) \<or> (h = rc \<and> form = form_7f5q)"
  by (auto simp: HEADING_FORMS_def hmd_def lc_def rc_def)

lemma HEADING_FORMS_in:
  "HEADING_FORMS h = Some form \<Longrightarrow> h \<in> set HEADINGS"
  by (auto simp: HEADING_FORMS_def HEADINGS_def split: if_splits)

lemma handle_packet_eq:
  assumes "HEADING_FORMS h = Some form"
  shows "handle_packet s (h, d) =
       Inr (if length d < calcsize form then s
            else s\<lparr>last_packet := Some (h, unpack_items form (take (calcsize form) d))\<rparr>)"
  using assms HEADING_FORMS_in [OF assms]
  by (simp add: handle_packet_def Let_def unpack_from_def min_def)

lemma HEADING_FORMS_simps [simp]:
  "HEADING_FORMS hmd = Some form_4f" "HEADING_FORMS lc = Some form_7f5q"
  "HEADING_FORMS rc = Some form_7f5q"
  by (simp_all add: HEADING_FORMS_def hmd_def lc_def rc_def)

lemma dispatch_HEADINGS:
  "dispatch HEADINGS frame s =
     Inr (if bytes_in rc frame \<and> 33 \<le> length (snd (split1 rc frame))
          then s\<lparr>last_packet := Some (rc, unpack_items form_7f5q (take 33 (snd (split1 rc frame))))\<rparr>
          else if bytes_in lc frame \<and> 33 \<le> length (snd (split1 lc frame))
          then s\<lparr>last_packet := Some (lc, unpack_items form_7f5q (take 33 (snd (split1 lc frame))))\<rparr>
          else if bytes_in hmd frame \<and> 16 \<le> length (snd (split1 hmd frame))
          then s\<lparr>last_packet := Some (hmd, unpack_items form_4f (take 16 (snd (split1 hmd frame))))\<rparr>
          else s)"
proof -
  have c4: "calcsize form_4f = 16" and c7: "calcsize form_7f5q = 33"
    by (simp_all add: form_4f_def form_7f5q_def)
  show ?thesis
    by (simp add: HEADINGS_def handle_packet_eq c4 c7 not_less)
qed

lemma calcsize_forms [simp]: "calcsize form_4f = 16" "calcsize form_7f5q = 33"
  by (simp_all add: form_4f_def form_7f5q_def)

lemma bytes_in_TERMINATOR_heading:
  "HEADING_FORMS h = Some form \<Longrightarrow> bytes_in TERMINATOR (h @ P) = bytes_in TERMINATOR P"
  by (auto simp: HEADING_FORMS_cases hmd_def lc_def rc_def TERMINATOR_def)

lemma split1_own_heading:
  "HEADING_FORMS h = Some form \<Longrightarrow> bytes_in h (h @ P) \<and> split1 h (h @ P) = ([], P)"
  by (auto simp: HEADING_FORMS_cases hmd_def lc_def rc_def)

lemma other_heading:
  "HEADING_FORMS h = Some form \<Longrightarrow> HEADING_FORMS h' = Some form' \<Longrightarrow> h' \<noteq> h \<Longrightarrow>
     bytes_in h' (h @ P) = bytes_in h' P \<and> snd (split1 h' (h @ P)) = snd (split1 h' P)"
  by (auto simp: HEADING_FORMS_cases hmd_def lc_def rc_def split: prod.splits)

lemma hmd_lc_rc_distinct [simp]: "hmd \<noteq> lc" "hmd \<noteq> rc" "lc \<noteq> rc" "lc \<noteq> hmd" "rc \<noteq> hmd" "rc \<noteq> lc"
  by (simp_all add: hmd_def lc_def rc_def)

lemma split1_shorter:
  "bytes_in sep xs \<Longrightarrow> sep \<noteq> [] \<Longrightarrow> length xs \<le> n \<Longrightarrow> \<not> n \<le> length (snd (split1 sep xs))"
  using split1_length [of sep xs] by simp

lemma heading_nonempty [simp]: "hmd \<noteq> []" "lc \<noteq> []" "rc \<noteq> []"
  by (simp_all add: hmd_def lc_def rc_def)

lemma dispatch_own_frame:
  assumes h: "HEADING_FORMS h = Some form"
    and len: "calcsize form \<le> length P"
    and other: "length P = calcsize form \<or> (\<forall>h' \<in> set HEADINGS. \<not> bytes_in h' P)"
  shows "dispatch HEADINGS (h @ P) s =
           Inr (s\<lparr>last_packet := Some (h, unpack_items form (take (calcsize form) P))\<rparr>)"
proof -
  note own = split1_own_heading [OF h, of P]
  from other show ?thesis
  proof
    assume exact: "length P = calcsize form"
    from h consider "h = hmd" "form = form_4f" | "h = lc" "form = form_7f5q" | "h = rc" "form = form_7f5q"
      by (auto simp: HEADING_FORMS_cases)
    then show ?thesis
    proof cases
      case 1
      have a: "bytes_in rc (hmd @ P) = bytes_in rc P" "snd (split1 rc (hmd @ P)) = snd (split1 rc P)"
        using other_heading [of hmd form_4f rc form_7f5q P] by simp_all
      have b: "bytes_in lc (hmd @ P) = bytes_in lc P" "snd (split1 lc (hmd @ P)) = snd (split1 lc P)"
        using other_heading [of hmd form_4f lc form_7f5q P] by simp_all
      have c: "\<not> (bytes_in rc P \<and> 33 \<le> length (snd (split1 rc P)))"
        "\<not> (bytes_in lc P \<and> 33 \<le> length (snd (split1 lc P)))"
        using exact 1 split1_shorter [of rc P 33] split1_shorter [of lc P 33] by auto
      show ?thesis using own 1 exact
        by (simp add: dispatch_HEADINGS a b c)
    next
      case 2
      have a: "bytes_in rc (lc @ P) = bytes_in rc P" "snd (split1 rc (lc @ P)) = snd (split1 rc P)"
        using other_heading [of lc form_7f5q rc form_7f5q P] by simp_all
      have c: "\<not> (bytes_in rc P \<and> 33 \<le> length (snd (split1 rc P)))"
        using exact 2 split1_shorter [of rc P 33] by auto
      show ?thesis using own 2 exact
        by (simp add: dispatch_HEADINGS a c)
    next
      case 3
      show ?thesis using own 3 exact
        by (simp add: dispatch_HEADINGS)
    qed
  next
    assume none: "\<forall>h' \<in> set HEADINGS. \<not> bytes_in h' P"
    then have n: "\<not> bytes_in hmd P" "\<not> bytes_in lc P" "\<not> bytes_in rc P"
      by (simp_all add: HEADINGS_def)
    from h consider "h = hmd" "form = form_4f" | "h = lc" "form = form_7f5q" | "h = rc" "form = form_7f5q"
      by (auto simp: HEADING_FORMS_cases)
    then show ?thesis
    proof cases
      case 1
      have a: "bytes_in rc (hmd @ P) = bytes_in rc P" 
        using other_heading [of hmd form_4f rc form_7f5q P] by simp_all
      have b: "bytes_in lc (hmd @ P) = bytes_in lc P" 
        using other_heading [of hmd form_4f lc form_7f5q P] by simp_all
      show ?thesis using own 1 len n
        by (simp add: dispatch_HEADINGS a b)
    next
      case 2
      have a: "bytes_in rc (lc @ P) = bytes_in rc P" 
        using other_heading [of lc form_7f5q rc form_7f5q P] by simp_all
      show ?thesis using own 2 len n
        by (simp add: dispatch_HEADINGS a)
    next
      case 3
      show ?thesis using own 3 len
        by (simp add: dispatch_HEADINGS)
    qed
  qed
qed

lemma feed_frame:
  assumes buf: "buffer s = []"
    and nt: "\<not> bytes_in TERMINATOR frame"
  shows "data_received s (frame @ TERMINATOR @ rest) =
           (case dispatch HEADINGS frame s of Inl e \<Rightarrow> Inl e
            | Inr s' \<Rightarrow> data_received s' rest)"
proof -
  have d: "dispatch HEADINGS frame (s\<lparr>buffer := rest\<rparr>) = 
     (case dispatch HEADINGS frame s of Inl e \<Rightarrow> Inl e | Inr s' \<Rightarrow> Inr (s'\<lparr>buffer := rest\<rparr>))"
    by (simp add: dispatch_HEADINGS)
  have b: "\<And>s'. dispatch HEADINGS frame s = Inr s' \<Longrightarrow> buffer s' = []"
    using buf by (auto dest: dispatch_buffer)
  show ?thesis
    unfolding data_received_def
    apply (subst frames_loop_frame [where F = frame and R = rest])
    using buf nt apply simp_all
    apply (simp add: d split: sum.splits)
    using b apply auto
    done
qed

lemma data_received_nothing:
  assumes "buffer s = []"
  shows "data_received s [] = Inr s"
proof -
  have "s\<lparr>buffer := buffer s\<rparr> = s" by simp
  with assms have e: "s\<lparr>buffer := []\<rparr> = s" by simp
  from assms have "frames_loop s = Inr s" by (simp add: frames_loop_done TERMINATOR_def)
  then show ?thesis by (simp add: data_received_def assms e)
qed

lemma feed_own_frame:
  assumes buf: "buffer s = []"
    and h: "HEADING_FORMS h = Some form"
    and nt: "\<not> bytes_in TERMINATOR P"
    and len: "calcsize form \<le> length P"
    and other: "length P = calcsize form \<or> (\<forall>h' \<in> set HEADINGS. \<not> bytes_in h' P)"
  shows "data_received s (h @ P @ TERMINATOR) =
           Inr (s\<lparr>last_packet := Some (h, unpack_items form (take (calcsize form) P))\<rparr>)"
proof -
  have nt': "\<not> bytes_in TERMINATOR (h @ P)"
    using nt bytes_in_TERMINATOR_heading [OF h] by simp
  have "data_received s (h @ P @ TERMINATOR) =
          data_received (s\<lparr>last_packet := Some (h, unpack_items form (take (calcsize form) P))\<rparr>) []"
    using feed_frame [OF buf nt', of "[]"] dispatch_own_frame [OF h len other, of s] by simp
  then show ?thesis using buf by (simp add: data_received_nothing)
qed

subsection \<open>Claims about the reader\<close>

text \<open>
  Claim C2, as stated: in a frame with several markers only the marker occurring
  earliest governs, with at most one decode attempt. The frame below starts with
  \<open>hmd:\<close> and 16 payload bytes and carries \<open>rc:\<close> with 33 bytes at offset 20; the
  reader ends up holding the \<open>rc:\<close> packet, not the one of the earliest marker.
\<close>

theorem multi_marker_counterexample:
  "fst (split1 hmd (hmd @ replicate 16 0 @ rc @ replicate 33 0)) = [] \<and>
   length (fst (split1 rc (hmd @ replicate 16 0 @ rc @ replicate 33 0))) = 20 \<and>
   data_received (init_reader Cf 13 4) (hmd @ replicate 16 0 @ rc @ replicate 33 0 @ TERMINATOR) =
     Inr ((init_reader Cf 13 4)
          \<lparr>last_packet := Some (rc, replicate 7 (VFloat 0) @ replicate 5 (VBool False))\<rparr>) \<and>
   rc \<noteq> hmd"
  by code_simp

text \<open>
  Claim C2, amended: for every terminator-delimited frame, the headings are tried in the
  fixed order \<open>hmd:\<close>, \<open>lc:\<close>, \<open>rc:\<close> of the list, each on the bytes after its own
  first occurrence, and each successful decode overwrites the stored packet. So the
  stored packet after the frame is that of \<open>rc:\<close> if it occurs with at least 33 bytes
  after it, else that of \<open>lc:\<close> likewise, else that of \<open>hmd:\<close> with at least 16
  bytes, else the packet stored before; positions in the frame are not compared.
\<close>

theorem frame_headings_in_list_order:
  assumes "buffer s = []" and "\<not> bytes_in TERMINATOR frame"
  shows "data_received s (frame @ TERMINATOR) =
     Inr (if bytes_in rc frame \<and> 33 \<le> length (snd (split1 rc frame))
          then s\<lparr>last_packet := Some (rc, unpack_items form_7f5q (take 33 (snd (split1 rc frame))))\<rparr>
          else if bytes_in lc frame \<and> 33 \<le> length (snd (split1 lc frame))
          then s\<lparr>last_packet := Some (lc, unpack_items form_7f5q (take 33 (snd (split1 lc frame))))\<rparr>
          else if bytes_in hmd frame \<and> 16 \<le> length (snd (split1 hmd frame))
          then s\<lparr>last_packet := Some (hmd, unpack_items form_4f (take 16 (snd (split1 hmd frame))))\<rparr>
          else s)"
proof -
  obtain s' where d: "dispatch HEADINGS frame s = Inr s'" and b: "buffer s' = []"
    using assms(1) by (simp add: dispatch_HEADINGS)
  have "data_received s (frame @ TERMINATOR) = data_received s' []"
    using feed_frame [OF assms, of "[]"] d by simp
  also have "\<dots> = Inr s'" using b by (rule data_received_nothing)
  finally show ?thesis using d by (simp add: dispatch_HEADINGS)
qed

theorem frame_headings_in_list_order_witness:
  "buffer (init_reader Cf 13 4) = [] \<and>
   \<not> bytes_in TERMINATOR (lc @ replicate 33 1 @ hmd @ replicate 16 2) \<and>
   data_received (init_reader Cf 13 4) ((lc @ replicate 33 1 @ hmd @ replicate 16 2) @ TERMINATOR) =
     Inr ((init_reader Cf 13 4)
          \<lparr>last_packet := Some (lc, replicate 7 (VFloat 16843009) @ replicate 5 (VBool True))\<rparr>)"
proof -
  have a: "buffer (init_reader Cf 13 4) = []" by (simp add: init_reader_def)
  have b: "\<not> bytes_in TERMINATOR (lc @ replicate 33 1 @ hmd @ replicate 16 2)" by code_simp
  have c: "bytes_in rc (lc @ replicate 33 1 @ hmd @ replicate 16 2) = False" by code_simp
  have d: "bytes_in lc (lc @ replicate 33 1 @ hmd @ replicate 16 2) = True" by code_simp
  have e: "33 \<le> length (snd (split1 lc (lc @ replicate 33 1 @ hmd @ replicate 16 2)))" by code_simp
  have f: "unpack_items form_7f5q (take 33 (snd (split1 lc (lc @ replicate 33 1 @ hmd @ replicate 16 2))))
     = replicate 7 (VFloat 16843009) @ replicate 5 (VBool True)" by code_simp
  show ?thesis
    using frame_headings_in_list_order [OF a b] a b by (simp only: c d e f simp_thms if_True if_False)
qed

text \<open>
  Claim C7, as stated: every marker followed by a payload of the exact length and the
  terminator decodes to its packet, and bytes beyond the expected length are ignored.
  The float with bit pattern \<open>0x000A0D09\<close> packs to the bytes 9, 13, 10, 0, which
  start with the terminator: the frame is cut there and nothing is decoded. And extra
  bytes that hold \<open>lc:\<close> with 33 bytes are decoded as a packet of their own, which
  replaces the \<open>hmd:\<close> packet.
\<close>

theorem valid_frame_counterexample:
  "fits form_4f [VFloat 658697, VFloat 0, VFloat 0, VFloat 0] \<and>
   length (pack [VFloat 658697, VFloat 0, VFloat 0, VFloat 0]) = 16 \<and>
   data_received (init_reader Cf 13 4)
      (hmd @ pack [VFloat 658697, VFloat 0, VFloat 0, VFloat 0] @ TERMINATOR) =
     Inr (init_reader Cf 13 4) \<and>
   data_received (init_reader Cf 13 4)
      (hmd @ pack [VFloat 1, VFloat 2, VFloat 3, VFloat 4] @ lc @ replicate 33 0 @ TERMINATOR) =
     Inr ((init_reader Cf 13 4)
          \<lparr>last_packet := Some (lc, replicate 7 (VFloat 0) @ replicate 5 (VBool False))\<rparr>)"
  by code_simp

text \<open>
  Claim C7, amended: for every marker and every sequence of values of its layout (4
  floats, 16 bytes, for \<open>hmd:\<close>; 7 floats then 5 flags, 33 bytes, for \<open>lc:\<close> and
  \<open>rc:\<close>) whose packed bytes, with any bytes that follow them, do not contain the
  terminator, feeding marker, payload, extra bytes and terminator to a reader with an
  empty buffer stores exactly the packet of that marker with the injected values. Extra
  bytes are cut off and ignored when payload and extra bytes contain no marker.
\<close>

theorem valid_frame_decodes:
  assumes buf: "buffer s = []"
    and h: "HEADING_FORMS h = Some form"
    and fit: "fits form vs"
    and nt: "\<not> bytes_in TERMINATOR (pack vs @ extra)"
    and other: "extra = [] \<or> (\<forall>h' \<in> set HEADINGS. \<not> bytes_in h' (pack vs @ extra))"
  shows "data_received s (h @ pack vs @ extra @ TERMINATOR) = Inr (s\<lparr>last_packet := Some (h, vs)\<rparr>) \<and>
         length (pack vs) = (if h = hmd then 16 else 33)"
proof -
  note rt = unpack_items_pack [OF fit]
  have len: "calcsize form \<le> length (pack vs @ extra)" using rt [of "[]"] by simp
  have other': "length (pack vs @ extra) = calcsize form \<or> (\<forall>h' \<in> set HEADINGS. \<not> bytes_in h' (pack vs @ extra))"
    using other rt [of "[]"] by auto
  have tk: "take (calcsize form) (pack vs @ extra) = pack vs" using rt [of "[]"] by simp
  have un: "unpack_items form (pack vs) = vs" using rt [of "[]"] by simp
  have "data_received s (h @ (pack vs @ extra) @ TERMINATOR) =
          Inr (s\<lparr>last_packet := Some (h, unpack_items form (take (calcsize form) (pack vs @ extra)))\<rparr>)"
    by (rule feed_own_frame [OF buf h nt len other'])
  then have "data_received s (h @ pack vs @ extra @ TERMINATOR) = Inr (s\<lparr>last_packet := Some (h, vs)\<rparr>)"
    by (simp only: tk un append_assoc)
  moreover have "length (pack vs) = (if h = hmd then 16 else 33)"
    using h rt [of "[]"] by (auto simp: HEADING_FORMS_cases)
  ultimately show ?thesis by (rule conjI)
qed

theorem valid_frame_decodes_witness:
  "buffer (init_reader Cf 13 4) = [] \<and> HEADING_FORMS hmd = Some form_4f \<and>
   fits form_4f [VFloat 1, VFloat 2, VFloat 3, VFloat 4] \<and>
   \<not> bytes_in TERMINATOR (pack [VFloat 1, VFloat 2, VFloat 3, VFloat 4] @ [7, 7]) \<and>
   \<not> bytes_in hmd (pack [VFloat 1, VFloat 2, VFloat 3, VFloat 4] @ [7, 7]) \<and>
   \<not> bytes_in lc (pack [VFloat 1, VFloat 2, VFloat 3, VFloat 4] @ [7, 7]) \<and>
   \<not> bytes_in rc (pack [VFloat 1, VFloat 2, VFloat 3, VFloat 4] @ [7, 7]) \<and>
   data_received (init_reader Cf 13 4)
      (hmd @ pack [VFloat 1, VFloat 2, VFloat 3, VFloat 4] @ [7, 7] @ TERMINATOR) =
     Inr ((init_reader Cf 13 4)\<lparr>last_packet := Some (hmd, [VFloat 1, VFloat 2, VFloat 3, VFloat 4])\<rparr>)"
proof -
  have a: "buffer (init_reader Cf 13 4) = []" by (simp add: init_reader_def)
  have b: "HEADING_FORMS hmd = Some form_4f" by simp
  have c: "fits form_4f [VFloat 1, VFloat 2, VFloat 3, VFloat 4]" by code_simp
  have d: "\<not> bytes_in TERMINATOR (pack [VFloat 1, VFloat 2, VFloat 3, VFloat 4] @ [7, 7])" by code_simp
  have e: "\<forall>h' \<in> set HEADINGS. \<not> bytes_in h' (pack [VFloat 1, VFloat 2, VFloat 3, VFloat 4] @ [7, 7])"
    by code_simp
  from e have e': "[7, 7] = ([] :: bytes) \<or>
      (\<forall>h' \<in> set HEADINGS. \<not> bytes_in h' (pack [VFloat 1, VFloat 2, VFloat 3, VFloat 4] @ [7, 7]))" ..
  from e have f: "\<not> bytes_in hmd (pack [VFloat 1, VFloat 2, VFloat 3, VFloat 4] @ [7, 7])"
    "\<not> bytes_in lc (pack [VFloat 1, VFloat 2, VFloat 3, VFloat 4] @ [7, 7])"
    "\<not> bytes_in rc (pack [VFloat 1, VFloat 2, VFloat 3, VFloat 4] @ [7, 7])"
    by (simp_all add: HEADINGS_def)
  show ?thesis using valid_frame_decodes [OF a b c d e'] a b c d f by simp
qed

text \<open>
  Claim C8, as stated: every frame whose payload after a recognized marker is shorter
  than the marker's layout is dropped and leaves the stored packet unchanged. In the
  frame \<open>lc:\<close>, \<open>hmd:\<close>, 16 zero bytes, the payload after \<open>lc:\<close> has 20 bytes, fewer
  than the 33 of its layout; the reader, which held an \<open>rc:\<close> packet, holds the
  \<open>hmd:\<close> packet afterwards.
\<close>

theorem short_payload_counterexample:
  "bytes_in lc (lc @ hmd @ replicate 16 0) \<and>
   length (snd (split1 lc (lc @ hmd @ replicate 16 0))) = 20 \<and>
   calcsize form_7f5q = 33 \<and>
   data_received
     ((init_reader Cf 13 4)
        \<lparr>last_packet := Some (rc, replicate 7 (VFloat 0) @ replicate 5 (VBool False))\<rparr>)
     (lc @ hmd @ replicate 16 0 @ TERMINATOR) =
   Inr ((init_reader Cf 13 4)\<lparr>last_packet := Some (hmd, replicate 4 (VFloat 0))\<rparr>)"
  by code_simp

text \<open>
  Claim C8, amended: a frame in which every recognized marker that occurs is followed
  by fewer bytes than its layout needs, and so also a frame with no recognized marker,
  is dropped: feeding it returns normally with the reader unchanged, stored packet
  included, and whatever is fed after it is decoded as if the frame had never arrived.
\<close>

theorem malformed_frame_dropped:
  assumes buf: "buffer s = []"
    and nt: "\<not> bytes_in TERMINATOR frame"
    and short: "\<forall>h form. HEADING_FORMS h = Some form \<longrightarrow> bytes_in h frame \<longrightarrow>
                  length (snd (split1 h frame)) < calcsize form"
  shows "data_received s (frame @ TERMINATOR) = Inr s \<and>
         data_received s (frame @ TERMINATOR @ rest) = data_received s rest"
proof -
  have n1: "\<not> (bytes_in rc frame \<and> 33 \<le> length (snd (split1 rc frame)))"
    using short [rule_format, of rc form_7f5q] by auto
  have n2: "\<not> (bytes_in lc frame \<and> 33 \<le> length (snd (split1 lc frame)))"
    using short [rule_format, of lc form_7f5q] by auto
  have n3: "\<not> (bytes_in hmd frame \<and> 16 \<le> length (snd (split1 hmd frame)))"
    using short [rule_format, of hmd form_4f] by auto
  have d: "dispatch HEADINGS frame s = Inr s"
    by (simp only: dispatch_HEADINGS n1 n2 n3 if_False)
  have "data_received s (frame @ TERMINATOR @ rest) = data_received s rest" for rest
    using feed_frame [OF buf nt, of rest] d by simp
  from this [of "[]"] this [of rest] show ?thesis
    using buf by (simp add: data_received_nothing)
qed

theorem malformed_frame_dropped_witness:
  "buffer (init_reader Cf 13 4) = [] \<and>
   \<not> bytes_in TERMINATOR (hmd @ [1, 2, 3]) \<and>
   bytes_in hmd (hmd @ [1, 2, 3]) \<and> length (snd (split1 hmd (hmd @ [1, 2, 3]))) < calcsize form_4f \<and>
   data_received (init_reader Cf 13 4) ((hmd @ [1, 2, 3]) @ TERMINATOR) = Inr (init_reader Cf 13 4) \<and>
   data_received (init_reader Cf 13 4)
      ((hmd @ [1, 2, 3]) @ TERMINATOR @ rc @ replicate 33 0 @ TERMINATOR) =
     Inr ((init_reader Cf 13 4)
          \<lparr>last_packet := Some (rc, replicate 7 (VFloat 0) @ replicate 5 (VBool False))\<rparr>)"
proof -
  have a: "buffer (init_reader Cf 13 4) = []" by (simp add: init_reader_def)
  have b: "\<not> bytes_in TERMINATOR (hmd @ [1, 2, 3])" by code_simp
  have c: "\<forall>h form. HEADING_FORMS h = Some form \<longrightarrow> bytes_in h (hmd @ [1, 2, 3]) \<longrightarrow>
                  length (snd (split1 h (hmd @ [1, 2, 3]))) < calcsize form"
    by (auto simp: HEADING_FORMS_cases hmd_def lc_def rc_def)
  have d: "bytes_in hmd (hmd @ [1, 2, 3]) \<and> length (snd (split1 hmd (hmd @ [1, 2, 3]))) < calcsize form_4f"
    by code_simp
  have e: "data_received (init_reader Cf 13 4) (rc @ replicate 33 0 @ TERMINATOR) =
     Inr ((init_reader Cf 13 4)
          \<lparr>last_packet := Some (rc, replicate 7 (VFloat 0) @ replicate 5 (VBool False))\<rparr>)"
    by code_simp
  show ?thesis
    using malformed_frame_dropped [OF a b c, of "rc @ replicate 33 0 @ TERMINATOR"] a b d e by simp
qed



section \<open>Facts about LazyKalman\<close>

lemma filter_step_fields [simp]:
  "calibration_countdown (filter_step K s obz) = calibration_countdown s"
  "calibration_observations (filter_step K s obz) = calibration_observations s"
  "kfilter (filter_step K s obz) = kfilter s"
  "em_iter (filter_step K s obz) = em_iter s"
  "do_learning (filter_step K s obz) = do_learning s"
  by (simp_all add: filter_step_def split: prod.splits)

lemma filter_step_commute:
  "filter_step K (s\<lparr>calibration_observations := b, calibration_countdown := c\<rparr>) obz =
     (filter_step K s obz)\<lparr>calibration_observations := b, calibration_countdown := c\<rparr>"
  by (simp add: filter_step_def split: prod.splits)

lemma foldl_filter_step_fields [simp]:
  "calibration_countdown (foldl (filter_step K) s xs) = calibration_countdown s"
  "calibration_observations (foldl (filter_step K) s xs) = calibration_observations s"
  "kfilter (foldl (filter_step K) s xs) = kfilter s"
  "em_iter (foldl (filter_step K) s xs) = em_iter s"
  "do_learning (foldl (filter_step K) s xs) = do_learning s"
  by (induction xs arbitrary: s) simp_all

lemma apply_idle:
  "calibration_countdown s = 0 \<Longrightarrow>
     LazyKalman_apply K s obz = (Inr (x_now (filter_step K s obz)), filter_step K s obz)"
  by (simp add: LazyKalman_apply_def Let_def)

lemma apply_collect:
  "calibration_countdown s \<noteq> 0 \<Longrightarrow> calibration_countdown s \<noteq> 1 \<Longrightarrow>
     LazyKalman_apply K s obz =
       (Inr (x_now (filter_step K s obz)),
        (filter_step K s obz)\<lparr>calibration_observations := calibration_observations s @ [obz],
                                calibration_countdown := calibration_countdown s - 1\<rparr>)"
  by (simp add: LazyKalman_apply_def Let_def)

lemma apply_each_idle:
  "calibration_countdown s = 0 \<Longrightarrow> apply_each K s xs = (None, foldl (filter_step K) s xs)"
  by (induction xs arbitrary: s) (simp_all add: apply_idle)

lemma apply_each_collect:
  "int (length xs) < calibration_countdown s \<Longrightarrow>
     apply_each K s xs =
       (None, (foldl (filter_step K) s xs)
                \<lparr>calibration_observations := calibration_observations s @ xs,
                 calibration_countdown := calibration_countdown s - int (length xs)\<rparr>)"
proof (induction xs arbitrary: s)
  case Nil
  then show ?case by simp
next
  case (Cons x xs)
  let ?s1 = "(filter_step K s x)\<lparr>calibration_observations := calibration_observations s @ [x],
                                calibration_countdown := calibration_countdown s - 1\<rparr>"
  from Cons.prems have a: "LazyKalman_apply K s x = (Inr (x_now (filter_step K s x)), ?s1)"
    by (intro apply_collect) auto
  from Cons.prems have "int (length xs) < calibration_countdown ?s1" by simp
  note ih = Cons.IH [OF this]
  have fold: "foldl (filter_step K) ?s1 xs =
      (foldl (filter_step K) (filter_step K s x) xs)
        \<lparr>calibration_observations := calibration_observations s @ [x],
         calibration_countdown := calibration_countdown s - 1\<rparr>" for b c
  proof (induction xs rule: rev_induct)
    case Nil
    then show ?case by simp
  next
    case (snoc y ys)
    then show ?case by (simp add: filter_step_commute)
  qed
  show ?case by (simp add: a ih fold algebra_simps)
qed

lemma run_calibration_ok:
  assumes "kf_filter K (kf_em K (kfilter s) (calibration_observations s) (em_iter s))
             (calibration_observations s) = (fm, fc)"
    and "fm \<noteq> []" and "fc \<noteq> []"
  shows "run_calibration K s =
     (None, s\<lparr>kfilter := kf_em K (kfilter s) (calibration_observations s) (em_iter s),
               x_now := last fm, p_now := last fc, calibration_observations := []\<rparr>)"
  using assms by (simp add: run_calibration_def Let_def)

lemma apply_refit:
  assumes lib: "fst (kf_filter K (kf_em K (kfilter s) (calibration_observations s @ [obz]) (em_iter s))
                       (calibration_observations s @ [obz])) \<noteq> []"
               "snd (kf_filter K (kf_em K (kfilter s) (calibration_observations s @ [obz]) (em_iter s))
                       (calibration_observations s @ [obz])) \<noteq> []"
    and one: "calibration_countdown s = 1"
  shows "LazyKalman_apply K s obz =
     (let B = calibration_observations s @ [obz];
          F = kf_em K (kfilter s) B (em_iter s);
          m = last (fst (kf_filter K F B));
          c = last (snd (kf_filter K F B))
      in (Inr m, s\<lparr>kfilter := F, x_now := m, p_now := c,
                     calibration_observations := [], calibration_countdown := 0\<rparr>))"
proof -
  let ?B = "calibration_observations s @ [obz]"
  let ?F = "kf_em K (kfilter s) ?B (em_iter s)"
  let ?s2 = "(filter_step K s obz)\<lparr>calibration_observations := ?B, calibration_countdown := 0\<rparr>"
  obtain fm fc where f: "kf_filter K ?F ?B = (fm, fc)" by (cases "kf_filter K ?F ?B")
  with lib have ne: "fm \<noteq> []" "fc \<noteq> []" by simp_all
  have "run_calibration K ?s2 =
     (None, ?s2\<lparr>kfilter := ?F, x_now := last fm, p_now := last fc, calibration_observations := []\<rparr>)"
    using run_calibration_ok [of K ?s2 fm fc] f ne by simp
  moreover have "?s2\<lparr>kfilter := ?F, x_now := last fm, p_now := last fc, calibration_observations := []\<rparr>
      = s\<lparr>kfilter := ?F, x_now := last fm, p_now := last fc,
           calibration_observations := [], calibration_countdown := 0\<rparr>"
    by (simp add: filter_step_def split: prod.splits)
  ultimately show ?thesis using one f
    by (simp add: LazyKalman_apply_def Let_def)
qed


lemma foldl_filter_step_overwritten:
  "(foldl (filter_step K) s xs)\<lparr>x_now := a, p_now := b\<rparr> = s\<lparr>x_now := a, p_now := b\<rparr>"
proof (induction xs arbitrary: s)
  case Nil
  then show ?case by simp
next
  case (Cons x xs)
  have "(filter_step K s x)\<lparr>x_now := a, p_now := b\<rparr> = s\<lparr>x_now := a, p_now := b\<rparr>"
    by (simp add: filter_step_def split: prod.splits)
  with Cons.IH [of "filter_step K s x"] show ?case by simp
qed

lemma foldl_filter_step_overwritten':
  "(foldl (filter_step K) s xs)\<lparr>kfilter := F, x_now := a, p_now := b,
       calibration_observations := os, calibration_countdown := c\<rparr> =
   s\<lparr>kfilter := F, x_now := a, p_now := b,
       calibration_observations := os, calibration_countdown := c\<rparr>"
proof (induction xs arbitrary: s)
  case Nil
  then show ?case by simp
next
  case (Cons x xs)
  have "(filter_step K s x)\<lparr>kfilter := F, x_now := a, p_now := b,
       calibration_observations := os, calibration_countdown := c\<rparr> =
     s\<lparr>kfilter := F, x_now := a, p_now := b,
       calibration_observations := os, calibration_countdown := c\<rparr>"
    by (simp add: filter_step_def split: prod.splits)
  with Cons.IH [of "filter_step K s x"] show ?case by simp
qed

lemma apply_each_append:
  "apply_each K s (xs @ ys) =
     (case apply_each K s xs of (Some e, s') \<Rightarrow> (Some e, s') | (None, s') \<Rightarrow> apply_each K s' ys)"
  by (induction xs arbitrary: s) (auto split: prod.splits sum.splits option.splits)

lemma apply_each_window:
  assumes lib: "\<forall>kf os. os \<noteq> [] \<longrightarrow> fst (kf_filter K kf os) \<noteq> [] \<and> snd (kf_filter K kf os) \<noteq> []"
    and N: "calibration_countdown s = int (length obs)" and ne: "obs \<noteq> []"
  shows "apply_each K s obs =
     (let B = calibration_observations s @ obs;
          F = kf_em K (kfilter s) B (em_iter s)
      in (None, s\<lparr>kfilter := F,
                   x_now := last (fst (kf_filter K F B)),
                   p_now := last (snd (kf_filter K F B)),
                   calibration_observations := [], calibration_countdown := 0\<rparr>))"
proof -
  let ?xs = "butlast obs" and ?y = "last obs"
  let ?B = "calibration_observations s @ obs"
  let ?F = "kf_em K (kfilter s) ?B (em_iter s)"
  from ne have obs: "obs = ?xs @ [?y]" by simp
  from ne N have lt: "int (length ?xs) < calibration_countdown s" by simp
  let ?s' = "(foldl (filter_step K) s ?xs)
                \<lparr>calibration_observations := calibration_observations s @ ?xs,
                 calibration_countdown := calibration_countdown s - int (length ?xs)\<rparr>"
  have first: "apply_each K s ?xs = (None, ?s')" using lt by (rule apply_each_collect)
  have B: "calibration_observations ?s' @ [?y] = ?B" using ne by simp
  have one: "calibration_countdown ?s' = 1" using ne N by (simp add: Suc_leI of_nat_diff)
  have kf: "kfilter ?s' = kfilter s" "em_iter ?s' = em_iter s" by simp_all
  have ne': "fst (kf_filter K ?F ?B) \<noteq> []" "snd (kf_filter K ?F ?B) \<noteq> []"
    using lib ne by simp_all
  have "LazyKalman_apply K ?s' ?y =
     (Inr (last (fst (kf_filter K ?F ?B))),
      ?s'\<lparr>kfilter := ?F, x_now := last (fst (kf_filter K ?F ?B)),
           p_now := last (snd (kf_filter K ?F ?B)),
           calibration_observations := [], calibration_countdown := 0\<rparr>)"
    using apply_refit [of K ?s' ?y] ne' one unfolding B kf by (simp add: Let_def)
  moreover have "?s'\<lparr>kfilter := ?F, x_now := last (fst (kf_filter K ?F ?B)),
           p_now := last (snd (kf_filter K ?F ?B)),
           calibration_observations := [], calibration_countdown := 0\<rparr> =
       s\<lparr>kfilter := ?F, x_now := last (fst (kf_filter K ?F ?B)),
           p_now := last (snd (kf_filter K ?F ?B)),
           calibration_observations := [], calibration_countdown := 0\<rparr>"
    by (simp add: foldl_filter_step_overwritten')
  ultimately have "apply_each K ?s' [?y] = (None, s\<lparr>kfilter := ?F, x_now := last (fst (kf_filter K ?F ?B)),
           p_now := last (snd (kf_filter K ?F ?B)),
           calibration_observations := [], calibration_countdown := 0\<rparr>)"
    by simp
  with first have "apply_each K s (?xs @ [?y]) = (None, s\<lparr>kfilter := ?F, x_now := last (fst (kf_filter K ?F ?B)),
           p_now := last (snd (kf_filter K ?F ?B)),
           calibration_observations := [], calibration_countdown := 0\<rparr>)"
    by (simp only: apply_each_append prod.case option.case)
  with obs show ?thesis by (simp add: Let_def)
qed

subsection \<open>Claims about LazyKalman\<close>

text \<open>
  Claim C4, as stated: for every filter whose countdown is N > 0, the call that brings
  the countdown to 0 fits the filter to the N buffered observations. A filter built
  with \<open>train_size = 2\<close> that has seen one observation and is then re-armed with
  \<open>calibrate(1, 5)\<close> has countdown 1; its next \<open>apply\<close> fits the filter to two
  observations, the one left in the buffer and the new one.
\<close>

theorem rearmed_window_counterexample:
  "calibration_countdown
     (calibrate (snd (LazyKalman_apply symK
        (LazyKalman symK [Fin 0, Fin 0, Fin 0] np_eye3 np_eye3 5 2) [Fin 1, Fin 1, Fin 1])) 1 5) = 1 \<and>
   LazyKalman_apply symK
     (calibrate (snd (LazyKalman_apply symK
        (LazyKalman symK [Fin 0, Fin 0, Fin 0] np_eye3 np_eye3 5 2) [Fin 1, Fin 1, Fin 1])) 1 5)
     [Fin 2, Fin 2, Fin 2] =
   (Inr [Fin 2, Fin 2, Fin 2],
    \<lparr>expected_shape = [3],
     kfilter = Em (KalmanFilter np_eye3 np_eye3 [Fin 0, Fin 0, Fin 0])
                 [[Fin 1, Fin 1, Fin 1], [Fin 2, Fin 2, Fin 2]] 5,
     do_learning = True, calibration_countdown = 0, calibration_observations = [],
     em_iter = 5, x_now = [Fin 2, Fin 2, Fin 2], p_now = Mat np_eye3\<rparr>)"
  by (simp add: LazyKalman_apply_def LazyKalman_def calibrate_def symK_def filter_step_def
      run_calibration_def Let_def np_zeros_def)

text \<open>
  Claim C4, amended: for every filter whose countdown is N > 0, with whatever
  observations \<open>calibrate\<close> left pending in its buffer (none after construction and
  after a re-fit), each of the next N calls to \<open>apply\<close> appends its observation to
  the buffer and takes one off the countdown. The N-th call does one re-fit: \<open>em\<close>
  over the whole buffer, the pending observations followed by the N new ones, with the
  configured iteration count; a \<open>filter\<close> pass over the same buffer, whose last mean
  and covariance become the current ones; and the buffer is emptied. After that the
  countdown stays 0, the buffer stays empty and the filter object stays the fitted one
  through any further calls to \<open>apply\<close>. The library is taken to return at least
  one row for a sequence of at least one observation.
\<close>

theorem calibration_window:
  assumes lib: "\<forall>kf os. os \<noteq> [] \<longrightarrow> fst (kf_filter K kf os) \<noteq> [] \<and> snd (kf_filter K kf os) \<noteq> []"
    and N: "calibration_countdown s = int (length obs)" and ne: "obs \<noteq> []"
  shows "let B = calibration_observations s @ obs;
             F = kf_em K (kfilter s) B (em_iter s);
             sN = s\<lparr>kfilter := F,
                     x_now := last (fst (kf_filter K F B)),
                     p_now := last (snd (kf_filter K F B)),
                     calibration_observations := [], calibration_countdown := 0\<rparr>
         in (\<forall>i < length obs.
               apply_each K s (take i obs) =
                 (None, (foldl (filter_step K) s (take i obs))
                          \<lparr>calibration_observations := calibration_observations s @ take i obs,
                           calibration_countdown := int (length obs) - int i\<rparr>)) \<and>
            apply_each K s obs = (None, sN) \<and>
            apply_each K s (obs @ later) = (None, foldl (filter_step K) sN later) \<and>
            calibration_countdown (foldl (filter_step K) sN later) = 0 \<and>
            calibration_observations (foldl (filter_step K) sN later) = [] \<and>
            kfilter (foldl (filter_step K) sN later) = F"
proof -
  have pre: "apply_each K s (take i obs) =
                 (None, (foldl (filter_step K) s (take i obs))
                          \<lparr>calibration_observations := calibration_observations s @ take i obs,
                           calibration_countdown := int (length obs) - int i\<rparr>)"
    if "i < length obs" for i
    using apply_each_collect [of "take i obs" s K] that N by (simp add: min_def)
  note win = apply_each_window [OF lib N ne]
  show ?thesis
    using pre by (simp add: Let_def win apply_each_append apply_each_idle)
qed

theorem calibration_window_witness:
  "calibration_countdown (LazyKalman symK [Fin 0, Fin 0, Fin 0] np_eye3 np_eye3 5 2) =
     int (length [[Fin 1, Fin 1, Fin 1], [Fin 2, Fin 2, Fin 2]]) \<and>
   apply_each symK (LazyKalman symK [Fin 0, Fin 0, Fin 0] np_eye3 np_eye3 5 2)
     [[Fin 1, Fin 1, Fin 1], [Fin 2, Fin 2, Fin 2]] =
   (None,
    \<lparr>expected_shape = [3],
     kfilter = Em (KalmanFilter np_eye3 np_eye3 [Fin 0, Fin 0, Fin 0])
                 [[Fin 1, Fin 1, Fin 1], [Fin 2, Fin 2, Fin 2]] 5,
     do_learning = True, calibration_countdown = 0, calibration_observations = [],
     em_iter = 5, x_now = [Fin 2, Fin 2, Fin 2], p_now = Mat np_eye3\<rparr>)"
proof -
  have lib: "\<forall>kf os. os \<noteq> [] \<longrightarrow> fst (kf_filter symK kf os) \<noteq> [] \<and> snd (kf_filter symK kf os) \<noteq> []"
    by (simp add: symK_def)
  have N: "calibration_countdown (LazyKalman symK [Fin 0, Fin 0, Fin 0] np_eye3 np_eye3 5 2) =
     int (length [[Fin 1, Fin 1, Fin 1], [Fin 2, Fin 2, Fin 2]])"
    by (simp add: LazyKalman_def calibrate_def)
  have ne: "[[Fin 1, Fin 1, Fin 1], [Fin 2, Fin 2, Fin 2]] \<noteq> ([] :: vec list)" by simp
  from calibration_window [OF lib N ne, of "[]"]
  have "apply_each symK (LazyKalman symK [Fin 0, Fin 0, Fin 0] np_eye3 np_eye3 5 2)
     [[Fin 1, Fin 1, Fin 1], [Fin 2, Fin 2, Fin 2]] =
   (None,
    \<lparr>expected_shape = [3],
     kfilter = Em (KalmanFilter np_eye3 np_eye3 [Fin 0, Fin 0, Fin 0])
                 [[Fin 1, Fin 1, Fin 1], [Fin 2, Fin 2, Fin 2]] 5,
     do_learning = True, calibration_countdown = 0, calibration_observations = [],
     em_iter = 5, x_now = [Fin 2, Fin 2, Fin 2], p_now = Mat np_eye3\<rparr>)"
    by (simp add: Let_def LazyKalman_def calibrate_def symK_def np_zeros_def)
  with N show ?thesis by simp
qed

section \<open>Facts about the tracker\<close>

lemma flt_div_Fin: "b \<noteq> 0 \<Longrightarrow> Fin a / Fin b = Fin (a / b)"
  by simp

text \<open>
  With a positive focal length, a positive radius and a blob off the image centre,
  every division of the triangulation is defined and the result is the finite point
  that the formulas give over the real numbers.
\<close>

lemma triangulate_finite:
  assumes f: "0 < f" and w: "0 < w" and off: "x \<noteq> W / 2 \<or> y \<noteq> H / 2"
  shows "triangulate f R W H ((x, y), w) =
     (let x' = x - W / 2; y' = H / 2 - y; l = sqrt (x' * x' + y' * y'); a = w / 2;
          k = l / f; j = (l + a) / f; ratio = (j - k) / (1 + j * k);
          distance_cm = R * sqrt (1 + ratio * ratio) / ratio;
          z_cm = distance_cm * (f / l) / sqrt (1 + (f / l) * (f / l));
          radial_cm = z_cm * k
      in [Fin (radial_cm * x' / l / 100), Fin (radial_cm * y' / l / 100), Fin (z_cm / 100)])"
proof -
  define x' where "x' = x - W / 2"
  define y' where "y' = H / 2 - y"
  define l where "l = sqrt (x' * x' + y' * y')"
  define a where "a = w / 2"
  define k where "k = l / f"
  define j where "j = (l + a) / f"
  define ratio where "ratio = (j - k) / (1 + j * k)"
  define d where "d = R * sqrt (1 + ratio * ratio) / ratio"
  define fl where "fl = f / l"
  define z where "z = d * fl / sqrt (1 + fl * fl)"
  define rad where "rad = z * k"
  from off have "x' \<noteq> 0 \<or> y' \<noteq> 0" by (auto simp: x'_def y'_def)
  then have "0 < x' * x' + y' * y'"
    using sum_power2_gt_zero_iff [of x' y'] by (simp add: power2_eq_square)
  then have lpos: "0 < l" by (simp add: l_def)
  have kpos: "0 < k" using lpos f by (simp add: k_def)
  have jk: "k < j" using f w by (simp add: j_def k_def a_def divide_strict_right_mono)
  have jpos: "0 < j" using kpos jk by linarith
  have "0 < j * k" using jpos kpos by (rule mult_pos_pos)
  then have den: "1 + j * k \<noteq> 0" by linarith
  have "0 < ratio" unfolding ratio_def using jk \<open>0 < j * k\<close>
    by (intro divide_pos_pos) linarith+
  then have ratio: "ratio \<noteq> 0" by simp
  have "0 < 1 + fl * fl" by (smt (verit) zero_le_square)
  then have s1: "sqrt (1 + fl * fl) \<noteq> 0" by simp
  have f0: "f \<noteq> 0" and l0: "l \<noteq> 0" using f lpos by simp_all
  have e1: "Fin x - Fin W / Fin 2 = Fin x'" by (simp add: x'_def)
  have e2: "Fin H / Fin 2 - Fin y = Fin y'" by (simp add: y'_def)
  have e3: "np_norm2 (Fin x') (Fin y') = Fin l" by (simp add: np_norm2_def l_def)
  have e4: "Fin w / Fin 2 = Fin a" by (simp add: a_def)
  have e5: "Fin l / Fin f = Fin k" using f0 by (simp add: k_def)
  have e6: "(Fin l + Fin a) / Fin f = Fin j" using f0 by (simp add: j_def)
  have e7: "(Fin j - Fin k) / (Fin 1 + Fin j * Fin k) = Fin ratio" using den by (simp add: ratio_def)
  have e8: "Fin R * np_sqrt (Fin 1 + Fin ratio * Fin ratio) / Fin ratio = Fin d"
    using ratio by (simp add: d_def)
  have e9: "Fin f / Fin l = Fin fl" using l0 by (simp add: fl_def)
  have e10: "Fin d * Fin fl / np_sqrt (Fin 1 + Fin fl * Fin fl) = Fin z"
    using s1 by (simp add: z_def)
  have e11: "Fin z * Fin k = Fin rad" by (simp add: rad_def)
  have e12: "Fin rad * Fin x' / Fin l = Fin (rad * x' / l)"
    "Fin rad * Fin y' / Fin l = Fin (rad * y' / l)" using l0 by simp_all
  have e13: "Fin v / Fin 100 = Fin (v / 100)" for v by simp
  have "triangulate f R W H ((x, y), w) = [Fin (rad * x' / l / 100), Fin (rad * y' / l / 100), Fin (z / 100)]"
    unfolding triangulate_def Let_def prod.case
    by (simp only: e1 e2 e3 e4 e5 e6 e7 e8 e9 e10 e11 e12 e13)
  then show ?thesis
    unfolding Let_def rad_def z_def fl_def d_def ratio_def j_def k_def a_def l_def y'_def x'_def .
qed

lemma invalid_pose_is_published:
  assumes "frame_width t = Some W" "frame_height t = Some H" "key < length (poses t)"
    and "find_blob V b img = Inr (Some blob)"
    and "has_nan_in_pose (triangulate (camera_focal_length t) (BALL_RADIUS_CM t) W H blob)"
  shows "solve_channel V K img key b t =
     (None, set_row key (triangulate (camera_focal_length t) (BALL_RADIUS_CM t) W H blob) t)"
  using assms by (simp add: solve_channel_def set_row_def Let_def)

lemma run_alive:
  "run V K source t = (r, t') \<Longrightarrow>
     (case r of None \<Rightarrow> \<not> alive t' | Some e \<Rightarrow> alive t' = alive t)"
  by (auto simp: run_def at_start_def try_get_frame_def Let_def
      split: prod.splits sum.splits option.splits list.splits if_splits)

lemma solve_channel_length:
  "solve_channel V K img key b t = (r, t') \<Longrightarrow>
     length (poses t') = length (poses t) \<and> blob_finders t' = blob_finders t"
  by (auto simp: solve_channel_def set_row_def Let_def
      split: sum.splits option.splits if_splits prod.splits)

lemma solve_from_length:
  "solve_from V K img key bs t = (r, t') \<Longrightarrow>
     length (poses t') = length (poses t) \<and> blob_finders t' = blob_finders t"
proof (induction bs arbitrary: key t)
  case Nil
  then show ?case by simp
next
  case (Cons b bs)
  obtain r1 t1 where c: "solve_channel V K img key b t = (r1, t1)"
    by (cases "solve_channel V K img key b t")
  note f = solve_channel_length [OF c]
  show ?case
  proof (cases r1)
    case None
    with Cons.prems c have "solve_from V K img (Suc key) bs t1 = (r, t')" by simp
    from Cons.IH [OF this] f show ?thesis by simp
  next
    case (Some e)
    with Cons.prems c f show ?thesis by simp
  qed
qed

lemma refresh_views_fields [simp]:
  "kfilter (refresh_views row lk) = kfilter lk"
  "x_now (refresh_views row lk) = x_now lk"
  "p_now (refresh_views row lk) = p_now lk"
  "do_learning (refresh_views row lk) = do_learning lk"
  "em_iter (refresh_views row lk) = em_iter lk"
  "calibration_countdown (refresh_views row lk) = calibration_countdown lk"
  "calibration_observations (refresh_views row lk) =
     replicate (length (calibration_observations lk)) row"
  by (simp_all add: refresh_views_def map_replicate_const)

text \<open>
  Under the same conditions and with a positive ball radius the depth coordinate is
  positive, so the point is not the origin.
\<close>

lemma triangulate_depth_positive:
  assumes f: "0 < f" and w: "0 < w" and R: "0 < R" and off: "x \<noteq> W / 2 \<or> y \<noteq> H / 2"
  shows "\<exists>a b c. triangulate f R W H ((x, y), w) = [Fin a, Fin b, Fin c] \<and> 0 < c"
proof -
  define x' where "x' = x - W / 2"
  define y' where "y' = H / 2 - y"
  define l where "l = sqrt (x' * x' + y' * y')"
  define k where "k = l / f"
  define j where "j = (l + w / 2) / f"
  define ratio where "ratio = (j - k) / (1 + j * k)"
  define d where "d = R * sqrt (1 + ratio * ratio) / ratio"
  define fl where "fl = f / l"
  define z where "z = d * fl / sqrt (1 + fl * fl)"
  from off have "x' \<noteq> 0 \<or> y' \<noteq> 0" by (auto simp: x'_def y'_def)
  then have "0 < x' * x' + y' * y'"
    using sum_power2_gt_zero_iff [of x' y'] by (simp add: power2_eq_square)
  then have lpos: "0 < l" by (simp add: l_def)
  have kpos: "0 < k" using lpos f by (simp add: k_def)
  have jk: "k < j" using f w by (simp add: j_def k_def divide_strict_right_mono)
  have jpos: "0 < j" using kpos jk by linarith
  have "0 < j * k" using jpos kpos by (rule mult_pos_pos)
  have rpos: "0 < ratio" unfolding ratio_def using jk \<open>0 < j * k\<close>
    by (intro divide_pos_pos) linarith+
  have "0 < 1 + ratio * ratio" by (smt (verit) zero_le_square)
  then have "0 < sqrt (1 + ratio * ratio)" by simp
  then have dpos: "0 < d" unfolding d_def using R rpos
    by (intro divide_pos_pos mult_pos_pos)
  have flpos: "0 < fl" using f lpos by (simp add: fl_def)
  have "0 < 1 + fl * fl" by (smt (verit) zero_le_square)
  then have "0 < sqrt (1 + fl * fl)" by simp
  then have zpos: "0 < z" unfolding z_def using dpos flpos
    by (intro divide_pos_pos mult_pos_pos)
  have "triangulate f R W H ((x, y), w) =
      [Fin (z * k * x' / l / 100), Fin (z * k * y' / l / 100), Fin (z / 100)]"
    using triangulate_finite [OF f w off, of R]
    unfolding Let_def z_def fl_def d_def ratio_def j_def k_def l_def y'_def x'_def .
  moreover have "0 < z / 100" using zpos by simp
  ultimately show ?thesis by blast
qed

text \<open>
  The branches of the loop body of \<open>solve_blob_poses\<close>, one lemma each: no blob,
  a pose that is not finite, the first finite pose, a later finite pose that does not
  end a calibration window, and the finite pose that ends one.
\<close>

lemma solve_channel_no_blob:
  "find_blob V b img = Inr None \<Longrightarrow> solve_channel V K img key b t = (None, t)"
  by (simp add: solve_channel_def)

lemma solve_channel_invalid:
  assumes "frame_width t = Some W" "frame_height t = Some H" "key < length (poses t)"
    and "find_blob V b img = Inr (Some blob)"
    and "p = triangulate (camera_focal_length t) (BALL_RADIUS_CM t) W H blob"
    and "has_nan_in_pose p"
  shows "solve_channel V K img key b t =
     (None, t\<lparr>poses := (poses t)[key := p],
              kalmanFilterz := (kalmanFilterz t)
                [key := map_option
                   (\<lambda>lk. lk\<lparr>calibration_observations :=
                               replicate (length (calibration_observations lk)) p\<rparr>)
                   (kalmanFilterz t ! key)]\<rparr>)"
  using assms
  by (simp add: solve_channel_def set_row_def refresh_views_def [abs_def] map_replicate_const Let_def)

lemma solve_channel_first:
  assumes "frame_width t = Some W" "frame_height t = Some H"
    and "key < length (poses t)" "key < length (kalmanFilterz t)"
    and "find_blob V b img = Inr (Some blob)"
    and "p = triangulate (camera_focal_length t) (BALL_RADIUS_CM t) W H blob"
    and "\<not> has_nan_in_pose p" and "kalmanFilterz t ! key = None"
  shows "solve_channel V K img key b t =
     (None, t\<lparr>poses := (poses t)[key := p],
              kalmanFilterz := (kalmanFilterz t)
                [key := Some \<lparr>expected_shape = [length p],
                              kfilter = kf_new K np_eye3 np_eye3 p,
                              do_learning = True,
                              calibration_countdown = 15,
                              calibration_observations = [],
                              em_iter = 5,
                              x_now = np_zeros 3, p_now = Vec (np_zeros 3)\<rparr>]\<rparr>)"
  using assms
  by (simp add: solve_channel_def set_row_def Let_def LazyKalman_def calibrate_def)

lemma solve_channel_update:
  assumes "frame_width t = Some W" "frame_height t = Some H"
    and "key < length (poses t)" "key < length (kalmanFilterz t)"
    and "find_blob V b img = Inr (Some blob)"
    and "p = triangulate (camera_focal_length t) (BALL_RADIUS_CM t) W H blob"
    and "\<not> has_nan_in_pose p" and "kalmanFilterz t ! key = Some lk"
    and "calibration_countdown lk \<noteq> 1"
    and "U = filter_update K (kfilter lk) (x_now lk) (p_now lk) p"
  shows "solve_channel V K img key b t =
     (None, t\<lparr>poses := (poses t)[key := fst U],
              kalmanFilterz := (kalmanFilterz t)
                [key := Some (lk\<lparr>x_now := fst U,
                                  p_now := (if do_learning lk then snd U else p_now lk),
                                  calibration_observations :=
                                    replicate (length (calibration_observations lk) +
                                       (if calibration_countdown lk = 0 then 0 else 1)) (fst U),
                                  calibration_countdown :=
                                    (if calibration_countdown lk = 0 then 0
                                     else calibration_countdown lk - 1)\<rparr>)]\<rparr>)"
proof (cases "calibration_countdown lk = 0")
  case True
  have a: "LazyKalman_apply K (refresh_views p lk) p =
      (Inr (x_now (filter_step K (refresh_views p lk) p)), filter_step K (refresh_views p lk) p)"
    using True by (intro apply_idle) simp
  have x: "x_now (filter_step K (refresh_views p lk) p) = fst U"
    using assms(10) by (simp add: filter_step_def split: prod.splits)
  have r: "refresh_views (fst U) (filter_step K (refresh_views p lk) p) =
      lk\<lparr>x_now := fst U, p_now := (if do_learning lk then snd U else p_now lk),
         calibration_observations := replicate (length (calibration_observations lk)) (fst U),
         calibration_countdown := 0\<rparr>"
    using assms(10) True
    by (simp add: filter_step_def refresh_views_def map_replicate_const split: prod.splits)
  show ?thesis
    using assms(1-5,7,8) True
    by (simp add: solve_channel_def set_row_def Let_def assms(6) [symmetric] a x r)
next
  case False
  let ?s1 = "filter_step K (refresh_views p lk) p"
  let ?s2 = "?s1\<lparr>calibration_observations :=
                    replicate (length (calibration_observations lk)) p @ [p],
                  calibration_countdown := calibration_countdown lk - 1\<rparr>"
  have a: "LazyKalman_apply K (refresh_views p lk) p = (Inr (x_now ?s1), ?s2)"
    using False assms(9) apply_collect [of "refresh_views p lk" K p] by simp
  have x: "x_now ?s1 = fst U"
    using assms(10) by (simp add: filter_step_def split: prod.splits)
  have r: "refresh_views (fst U) ?s2 =
      lk\<lparr>x_now := fst U, p_now := (if do_learning lk then snd U else p_now lk),
         calibration_observations := replicate (Suc (length (calibration_observations lk))) (fst U),
         calibration_countdown := calibration_countdown lk - 1\<rparr>"
    using assms(10)
    by (simp add: filter_step_def refresh_views_def map_replicate_const split: prod.splits)
  show ?thesis
    using assms(1-5,7,8) False
    by (simp add: solve_channel_def set_row_def Let_def assms(6) [symmetric] a x r)
qed

lemma solve_channel_refit:
  assumes "frame_width t = Some W" "frame_height t = Some H"
    and "key < length (poses t)" "key < length (kalmanFilterz t)"
    and "find_blob V b img = Inr (Some blob)"
    and "p = triangulate (camera_focal_length t) (BALL_RADIUS_CM t) W H blob"
    and "\<not> has_nan_in_pose p" and "kalmanFilterz t ! key = Some lk"
    and "calibration_countdown lk = 1"
    and "B = replicate (Suc (length (calibration_observations lk))) p"
    and "F = kf_em K (kfilter lk) B (em_iter lk)"
    and "fst (kf_filter K F B) \<noteq> []" "snd (kf_filter K F B) \<noteq> []"
  shows "solve_channel V K img key b t =
     (None, t\<lparr>poses := (poses t)[key := last (fst (kf_filter K F B))],
              kalmanFilterz := (kalmanFilterz t)
                [key := Some (lk\<lparr>kfilter := F,
                                  x_now := last (fst (kf_filter K F B)),
                                  p_now := last (snd (kf_filter K F B)),
                                  calibration_observations := [],
                                  calibration_countdown := 0\<rparr>)]\<rparr>)"
proof -
  let ?lk = "refresh_views p lk"
  have B: "calibration_observations ?lk @ [p] = B"
    using assms(10) by (simp add: replicate_append_same)
  have a: "LazyKalman_apply K ?lk p =
     (Inr (last (fst (kf_filter K F B))),
      ?lk\<lparr>kfilter := F, x_now := last (fst (kf_filter K F B)),
           p_now := last (snd (kf_filter K F B)),
           calibration_observations := [], calibration_countdown := 0\<rparr>)"
    using apply_refit [of K ?lk p] assms(9,11,12,13) unfolding B
    by (simp add: Let_def)
  have r: "refresh_views m (?lk\<lparr>kfilter := F, x_now := m, p_now := c,
           calibration_observations := [], calibration_countdown := 0\<rparr>) =
      lk\<lparr>kfilter := F, x_now := m, p_now := c,
           calibration_observations := [], calibration_countdown := 0\<rparr>" for m c
    by (simp add: refresh_views_def)
  show ?thesis
    using assms(1-5,7,8)
    by (simp add: solve_channel_def set_row_def Let_def assms(6) [symmetric] a r)
qed

subsection \<open>Claims about the tracker\<close>

text \<open>
  Claim C1 says that a channel whose triangulated result is not finite keeps its
  published pose for that cycle, so that \<open>get_poses\<close> never shows a pose with NaN or
  Inf. The code stores the result in \<open>self.poses[key]\<close> before it tests it. With a
  640 by 480 frame and a blob exactly at the centre (320, 240), the radial distance is
  0 and all three coordinates are not finite; the table, which held (0, 0, 0), holds
  them after the cycle, and \<open>get_poses\<close> returns them. The filter of the channel is
  not created and not fed.
\<close>

theorem centred_blob_publishes_nan:
  "solve_blob_poses toy_vision symK (Some (Some ((320, 240), 10)))
     ((BlobTracker 0 490 2 [()])\<lparr>frame_height := Some 480, frame_width := Some 640\<rparr>) =
   (None, (BlobTracker 0 490 2 [()])
            \<lparr>frame_height := Some 480, frame_width := Some 640,
             poses := [[NonFin, NonFin, NonFin]]\<rparr>) \<and>
   get_poses ((BlobTracker 0 490 2 [()] :: (blob option, unit, kfsym) tracker)
            \<lparr>frame_height := Some 480, frame_width := Some 640,
             poses := [[NonFin, NonFin, NonFin]]\<rparr>) = [[NonFin, NonFin, NonFin]] \<and>
   get_poses (BlobTracker 0 490 2 [()] :: (blob option, unit, kfsym) tracker) = [[Fin 0, Fin 0, Fin 0]]"
  by (simp add: solve_blob_poses_def solve_channel_def set_row_def BlobTracker_def
      toy_vision_def triangulate_def Let_def np_norm2_def has_nan_in_pose_def get_poses_def
      np_zeros_def numeral_3_eq_3)

text \<open>
  Claim C3 says that \<open>self.alive\<close> is \<open>False\<close> whenever \<open>run\<close> has ended, also when
  \<open>at_start\<close> fails. \<open>run\<close> calls \<open>at_start\<close> outside its \<open>try\<close>: with a source
  whose first acquisition fails, the RuntimeError of \<open>at_start\<close> leaves \<open>run\<close> and
  \<open>alive\<close> is still \<open>True\<close>. On every other way out of \<open>run\<close> the flag is
  cleared (\<open>run_alive\<close>).
\<close>

theorem failed_start_leaves_alive:
  "run toy_vision symK [None] (BlobTracker 0 490 2 [()]) =
     (Some (RuntimeError ''invalid video source''), BlobTracker 0 490 2 [()]) \<and>
   alive (BlobTracker 0 490 2 [()] :: (blob option, unit, kfsym) tracker)"
  by (simp add: run_def at_start_def try_get_frame_def BlobTracker_def Let_def)

text \<open>
  Claim C5: for every blob observation, and so for every one off the image centre, the
  point that \<open>solve_blob_poses\<close> computes and stores in the pose table is the point
  of the reference formulas of the specification, section 4.2: the coordinates in
  centimetres divided by 100. Both are functions of the observation and the configured
  constants alone.
\<close>

theorem triangulate_is_estimate:
  "triangulate f_px ball_radius_cm width height ((x, y), w) =
     estimate ((x, y), w) f_px width height ball_radius_cm"
  by (simp add: triangulate_def estimate_def Let_def)

text \<open>
  Claim C6, as stated: on the first finite observation the filter is created with its
  mean equal to that observation. The filter that the first finite pose of a channel
  creates has the pose as the initial state mean of its pykalman object, but the mean
  it keeps and updates, \<open>_x_now\<close>, is \<open>np.zeros(3)\<close>, and the pose is not the origin.
\<close>

theorem first_pose_not_running_mean_counterexample:
  "solve_channel toy_vision symK (Some (Some ((400, 240), 10))) 0 ()
     ((BlobTracker 0 490 2 [()])\<lparr>frame_height := Some 480, frame_width := Some 640\<rparr>) =
   (None, (BlobTracker 0 490 2 [()])
      \<lparr>frame_height := Some 480, frame_width := Some 640,
       poses := [triangulate 490 2 640 480 ((400, 240), 10)],
       kalmanFilterz :=
         [Some \<lparr>expected_shape = [3],
                kfilter = KalmanFilter np_eye3 np_eye3 (triangulate 490 2 640 480 ((400, 240), 10)),
                do_learning = True, calibration_countdown = 15,
                calibration_observations = [], em_iter = 5,
                x_now = [Fin 0, Fin 0, Fin 0], p_now = Vec [Fin 0, Fin 0, Fin 0]\<rparr>]\<rparr>) \<and>
   \<not> has_nan_in_pose (triangulate 490 2 640 480 ((400, 240), 10)) \<and>
   triangulate 490 2 640 480 ((400, 240), 10) \<noteq> [Fin 0, Fin 0, Fin 0]"
proof -
  let ?t = "(BlobTracker 0 490 2 [()] :: (blob option, unit, kfsym) tracker)
      \<lparr>frame_height := Some 480, frame_width := Some 640\<rparr>"
  let ?p = "triangulate 490 2 640 480 ((400, 240), 10)"
  obtain a b c where q: "?p = [Fin a, Fin b, Fin c]" and c: "0 < c"
    using triangulate_depth_positive [of 490 10 2 400 640 240 480] by auto
  have fin: "\<not> has_nan_in_pose ?p" and nz: "?p \<noteq> [Fin 0, Fin 0, Fin 0]"
    using q c by (simp_all add: has_nan_in_pose_def)
  have "solve_channel toy_vision symK (Some (Some ((400, 240), 10))) 0 () ?t =
     (None, ?t\<lparr>poses := (poses ?t)[0 := ?p],
              kalmanFilterz := (kalmanFilterz ?t)
                [0 := Some \<lparr>expected_shape = [length ?p],
                              kfilter = kf_new symK np_eye3 np_eye3 ?p,
                              do_learning = True,
                              calibration_countdown = 15,
                              calibration_observations = [],
                              em_iter = 5,
                              x_now = np_zeros 3, p_now = Vec (np_zeros 3)\<rparr>]\<rparr>)"
    using fin
    by (intro solve_channel_first [where W = 640 and H = 480 and blob = "((400, 240), 10)"])
       (simp_all add: BlobTracker_def toy_vision_def)
  then show ?thesis
    using fin nz q by (simp add: BlobTracker_def symK_def np_zeros_def numeral_3_eq_3)
qed

text \<open>
  Claim C6, amended: the filters of a new tracker are all absent. In a cycle, a channel
  without a blob changes nothing. A blob whose triangulated pose is not finite changes
  the row of the pose table, and with it what the observations buffered by an existing
  filter show, which are views of that row; it creates no filter and calls no method
  of one. The first finite pose of a channel is published as it is and creates the
  filter: the pose is the initial state mean of its pykalman object, transition and
  observation matrices are the 3 by 3 identity, the countdown is 15, the iteration
  count 5, and the running mean and covariance are \<open>np.zeros(3)\<close>. Every later finite
  pose is passed to \<open>filter_update\<close> together with the running mean and covariance, and
  the mean that \<open>filter_update\<close> returns is the new running mean and the published
  pose; inside a calibration window one more view of the row is buffered. On the call
  that ends a window the filter is fitted to the buffer, which shows the current raw
  pose in every place, and the last filtered mean is the running mean and the published
  pose, the library returning at least one row.
\<close>

theorem filter_created_on_first_finite_pose:
  assumes dims: "frame_width t = Some W" "frame_height t = Some H"
    and key: "key < length (poses t)" "key < length (kalmanFilterz t)"
    and blob: "find_blob V b img = Inr (Some blob)"
    and p: "p = triangulate (camera_focal_length t) (BALL_RADIUS_CM t) W H blob"
    and U: "U = filter_update K (kfilter lk) (x_now lk) (p_now lk) p"
    and B: "B = replicate (Suc (length (calibration_observations lk))) p"
    and F: "F = kf_em K (kfilter lk) B (em_iter lk)"
  shows "kalmanFilterz (BlobTracker cam focal ball masks :: ('img, 'mask, 'kf) tracker) =
           replicate (length masks) None \<and>
         (find_blob V b' img' = Inr None \<longrightarrow> solve_channel V K img' key b' t = (None, t)) \<and>
         (has_nan_in_pose p \<longrightarrow>
            solve_channel V K img key b t =
              (None, t\<lparr>poses := (poses t)[key := p],
                       kalmanFilterz := (kalmanFilterz t)
                         [key := map_option
                            (\<lambda>lk. lk\<lparr>calibration_observations :=
                                        replicate (length (calibration_observations lk)) p\<rparr>)
                            (kalmanFilterz t ! key)]\<rparr>)) \<and>
         (\<not> has_nan_in_pose p \<and> kalmanFilterz t ! key = None \<longrightarrow>
            solve_channel V K img key b t =
              (None, t\<lparr>poses := (poses t)[key := p],
                       kalmanFilterz := (kalmanFilterz t)
                         [key := Some \<lparr>expected_shape = [length p],
                                       kfilter = kf_new K np_eye3 np_eye3 p,
                                       do_learning = True,
                                       calibration_countdown = 15,
                                       calibration_observations = [],
                                       em_iter = 5,
                                       x_now = np_zeros 3, p_now = Vec (np_zeros 3)\<rparr>]\<rparr>)) \<and>
         (\<not> has_nan_in_pose p \<and> kalmanFilterz t ! key = Some lk \<and>
            calibration_countdown lk \<noteq> 1 \<longrightarrow>
            solve_channel V K img key b t =
              (None, t\<lparr>poses := (poses t)[key := fst U],
                       kalmanFilterz := (kalmanFilterz t)
                         [key := Some (lk\<lparr>x_now := fst U,
                              p_now := (if do_learning lk then snd U else p_now lk),
                              calibration_observations :=
                                replicate (length (calibration_observations lk) +
                                   (if calibration_countdown lk = 0 then 0 else 1)) (fst U),
                              calibration_countdown :=
                                (if calibration_countdown lk = 0 then 0
                                 else calibration_countdown lk - 1)\<rparr>)]\<rparr>)) \<and>
         (\<not> has_nan_in_pose p \<and> kalmanFilterz t ! key = Some lk \<and>
            calibration_countdown lk = 1 \<and>
            fst (kf_filter K F B) \<noteq> [] \<and> snd (kf_filter K F B) \<noteq> [] \<longrightarrow>
            solve_channel V K img key b t =
              (None, t\<lparr>poses := (poses t)[key := last (fst (kf_filter K F B))],
                       kalmanFilterz := (kalmanFilterz t)
                         [key := Some (lk\<lparr>kfilter := F,
                              x_now := last (fst (kf_filter K F B)),
                              p_now := last (snd (kf_filter K F B)),
                              calibration_observations := [],
                              calibration_countdown := 0\<rparr>)]\<rparr>))"
proof (intro conjI impI)
  show "kalmanFilterz (BlobTracker cam focal ball masks :: ('img, 'mask, 'kf) tracker) =
           replicate (length masks) None"
    by (simp add: BlobTracker_def)
next
  assume "find_blob V b' img' = Inr None"
  then show "solve_channel V K img' key b' t = (None, t)" by (rule solve_channel_no_blob)
next
  assume "has_nan_in_pose p"
  with dims key(1) blob p show "solve_channel V K img key b t =
              (None, t\<lparr>poses := (poses t)[key := p],
                       kalmanFilterz := (kalmanFilterz t)
                         [key := map_option
                            (\<lambda>lk. lk\<lparr>calibration_observations :=
                                        replicate (length (calibration_observations lk)) p\<rparr>)
                            (kalmanFilterz t ! key)]\<rparr>)"
    by (rule solve_channel_invalid)
next
  assume "\<not> has_nan_in_pose p \<and> kalmanFilterz t ! key = None"
  then show "solve_channel V K img key b t =
              (None, t\<lparr>poses := (poses t)[key := p],
                       kalmanFilterz := (kalmanFilterz t)
                         [key := Some \<lparr>expected_shape = [length p],
                                       kfilter = kf_new K np_eye3 np_eye3 p,
                                       do_learning = True,
                                       calibration_countdown = 15,
                                       calibration_observations = [],
                                       em_iter = 5,
                                       x_now = np_zeros 3, p_now = Vec (np_zeros 3)\<rparr>]\<rparr>)"
    using solve_channel_first [OF dims key blob p] by blast
next
  assume "\<not> has_nan_in_pose p \<and> kalmanFilterz t ! key = Some lk \<and> calibration_countdown lk \<noteq> 1"
  then show "solve_channel V K img key b t =
              (None, t\<lparr>poses := (poses t)[key := fst U],
                       kalmanFilterz := (kalmanFilterz t)
                         [key := Some (lk\<lparr>x_now := fst U,
                              p_now := (if do_learning lk then snd U else p_now lk),
                              calibration_observations :=
                                replicate (length (calibration_observations lk) +
                                   (if calibration_countdown lk = 0 then 0 else 1)) (fst U),
                              calibration_countdown :=
                                (if calibration_countdown lk = 0 then 0
                                 else calibration_countdown lk - 1)\<rparr>)]\<rparr>)"
    using solve_channel_update [OF dims key blob p _ _ _ U] by blast
next
  assume "\<not> has_nan_in_pose p \<and> kalmanFilterz t ! key = Some lk \<and>
            calibration_countdown lk = 1 \<and>
            fst (kf_filter K F B) \<noteq> [] \<and> snd (kf_filter K F B) \<noteq> []"
  then show "solve_channel V K img key b t =
              (None, t\<lparr>poses := (poses t)[key := last (fst (kf_filter K F B))],
                       kalmanFilterz := (kalmanFilterz t)
                         [key := Some (lk\<lparr>kfilter := F,
                              x_now := last (fst (kf_filter K F B)),
                              p_now := last (snd (kf_filter K F B)),
                              calibration_observations := [],
                              calibration_countdown := 0\<rparr>)]\<rparr>)"
    using solve_channel_refit [OF dims key blob p _ _ _ B F] by blast
qed

theorem filter_created_on_first_finite_pose_witness:
  "\<not> has_nan_in_pose (triangulate 490 2 640 480 ((380, 200), 12)) \<and>
   calibration_countdown
     (LazyKalman midK (triangulate 490 2 640 480 ((400, 240), 10)) np_eye3 np_eye3 5 15) = 15 \<and>
   solve_channel toy_vision midK (Some (Some ((380, 200), 12))) 0 ()
     ((BlobTracker 0 490 2 [()])
        \<lparr>frame_height := Some 480, frame_width := Some 640,
         poses := [triangulate 490 2 640 480 ((400, 240), 10)],
         kalmanFilterz :=
           [Some (LazyKalman midK (triangulate 490 2 640 480 ((400, 240), 10))
                    np_eye3 np_eye3 5 15)]\<rparr>) =
   (None, (BlobTracker 0 490 2 [()])
        \<lparr>frame_height := Some 480, frame_width := Some 640,
         poses := [map2 (\<lambda>a b. (a + b) / Fin 2) [Fin 0, Fin 0, Fin 0]
                     (triangulate 490 2 640 480 ((380, 200), 12))],
         kalmanFilterz :=
           [Some \<lparr>expected_shape = [3],
                  kfilter = KalmanFilter np_eye3 np_eye3
                              (triangulate 490 2 640 480 ((400, 240), 10)),
                  do_learning = True, calibration_countdown = 14,
                  calibration_observations =
                    [map2 (\<lambda>a b. (a + b) / Fin 2) [Fin 0, Fin 0, Fin 0]
                       (triangulate 490 2 640 480 ((380, 200), 12))],
                  em_iter = 5,
                  x_now = map2 (\<lambda>a b. (a + b) / Fin 2) [Fin 0, Fin 0, Fin 0]
                            (triangulate 490 2 640 480 ((380, 200), 12)),
                  p_now = Vec [Fin 0, Fin 0, Fin 0]\<rparr>]\<rparr>)"
proof -
  let ?q = "triangulate 490 2 640 480 ((400, 240), 10)"
  let ?p = "triangulate 490 2 640 480 ((380, 200), 12)"
  let ?lk = "LazyKalman midK ?q np_eye3 np_eye3 5 15"
  let ?t = "(BlobTracker 0 490 2 [()] :: (blob option, unit, kfsym) tracker)
        \<lparr>frame_height := Some 480, frame_width := Some 640,
         poses := [?q], kalmanFilterz := [Some ?lk]\<rparr>"
  obtain a b c where p: "?p = [Fin a, Fin b, Fin c]"
    using triangulate_depth_positive [of 490 12 2 380 640 200 480] by auto
  obtain a' b' c' where q: "?q = [Fin a', Fin b', Fin c']"
    using triangulate_depth_positive [of 490 10 2 400 640 240 480] by auto
  have fin: "\<not> has_nan_in_pose ?p" using p by (simp add: has_nan_in_pose_def)
  have d: "frame_width ?t = Some 640" "frame_height ?t = Some 480" by simp_all
  have k: "0 < length (poses ?t)" "0 < length (kalmanFilterz ?t)" by simp_all
  have bl: "find_blob (toy_vision :: (blob option, unit) vision) () (Some (Some ((380, 200), 12))) =
      Inr (Some ((380, 200), 12))"
    by (simp add: toy_vision_def)
  have pe: "?p = triangulate (camera_focal_length ?t) (BALL_RADIUS_CM ?t) 640 480 ((380, 200), 12)"
    by (simp add: BlobTracker_def)
  have cd: "calibration_countdown ?lk = 15" by (simp add: LazyKalman_def calibrate_def)
  have there: "kalmanFilterz ?t ! 0 = Some ?lk" by simp
  have prem: "\<not> has_nan_in_pose ?p \<and> kalmanFilterz ?t ! 0 = Some ?lk \<and>
      calibration_countdown ?lk \<noteq> 1"
    using fin there cd by simp
  note branch = filter_created_on_first_finite_pose [OF d k bl pe refl refl refl,
      where K = midK and lk = "?lk",
      THEN conjunct2, THEN conjunct2, THEN conjunct2, THEN conjunct2, THEN conjunct1]
  from branch [rule_format, OF prem]
  have "solve_channel toy_vision midK (Some (Some ((380, 200), 12))) 0 () ?t =
      (None, ?t\<lparr>poses := (poses ?t)[0 := fst (filter_update midK (kfilter ?lk) (x_now ?lk) (p_now ?lk) ?p)],
               kalmanFilterz := (kalmanFilterz ?t)
                 [0 := Some (?lk\<lparr>x_now := fst (filter_update midK (kfilter ?lk) (x_now ?lk) (p_now ?lk) ?p),
                      p_now := (if do_learning ?lk
                                then snd (filter_update midK (kfilter ?lk) (x_now ?lk) (p_now ?lk) ?p)
                                else p_now ?lk),
                      calibration_observations :=
                        replicate (length (calibration_observations ?lk) +
                           (if calibration_countdown ?lk = 0 then 0 else 1))
                          (fst (filter_update midK (kfilter ?lk) (x_now ?lk) (p_now ?lk) ?p)),
                      calibration_countdown :=
                        (if calibration_countdown ?lk = 0 then 0
                         else calibration_countdown ?lk - 1)\<rparr>)]\<rparr>)" .
  then show ?thesis
    using fin cd q
    by (simp add: LazyKalman_def calibrate_def midK_def np_zeros_def numeral_3_eq_3 BlobTracker_def)
qed

text \<open>
  Claim C9: \<open>get_poses\<close> returns a new array with the content of the pose table. A
  write to the returned array changes neither the table nor what a later \<open>get_poses\<close>
  returns, and a later write of the worker to the table does not change an array
  returned before. The table has one row for each configured channel, in the order of
  the colour masks, from construction on.
\<close>

theorem get_poses_is_a_copy:
  assumes "self_poses < next_ref h"
  shows "fst (get_poses_ref self_poses h) \<noteq> self_poses \<and>
         arrays (snd (get_poses_ref self_poses h)) (fst (get_poses_ref self_poses h)) =
           arrays h self_poses \<and>
         arrays (snd (get_poses_ref self_poses h)) self_poses = arrays h self_poses \<and>
         (setitem (fst (get_poses_ref self_poses h)) i v (snd (get_poses_ref self_poses h)) = Inr h2 \<longrightarrow>
            arrays h2 self_poses = arrays h self_poses \<and>
            arrays (snd (get_poses_ref self_poses h2)) (fst (get_poses_ref self_poses h2)) =
              arrays h self_poses \<and>
            fst (get_poses_ref self_poses h2) \<noteq> fst (get_poses_ref self_poses h)) \<and>
         (setitem self_poses i v (snd (get_poses_ref self_poses h)) = Inr h3 \<longrightarrow>
            arrays h3 (fst (get_poses_ref self_poses h)) = arrays h self_poses) \<and>
         length (get_poses (BlobTracker cam focal ball masks :: ('img, 'mask, 'kf) tracker)) = length masks \<and>
         (length (poses t) = length (blob_finders t) \<and> solve_blob_poses V K img t = (r, t') \<longrightarrow>
            length (get_poses t') = length (blob_finders t'))"
proof -
  have "length (get_poses t') = length (blob_finders t')"
    if "length (poses t) = length (blob_finders t)" "solve_blob_poses V K img t = (r, t')"
    using solve_from_length [of V K img 0 "blob_finders t" t r t'] that
    by (simp add: solve_blob_poses_def get_poses_def)
  then show ?thesis
    using assms
    by (auto simp: get_poses_ref_def ndarray_copy_def setitem_def get_poses_def BlobTracker_def
        split: if_splits)
qed

theorem get_poses_is_a_copy_witness:
  "(0::nat) < next_ref \<lparr>arrays = (\<lambda>r. [])(0 := [[Fin 1, Fin 2, Fin 3]]), next_ref = 1\<rparr> \<and>
   fst (get_poses_ref 0 \<lparr>arrays = (\<lambda>r. [])(0 := [[Fin 1, Fin 2, Fin 3]]), next_ref = 1\<rparr>) = 1 \<and>
   setitem 1 0 [Fin 9, Fin 9, Fin 9]
     (snd (get_poses_ref 0 \<lparr>arrays = (\<lambda>r. [])(0 := [[Fin 1, Fin 2, Fin 3]]), next_ref = 1\<rparr>)) =
     Inr \<lparr>arrays = (\<lambda>r. [])(0 := [[Fin 1, Fin 2, Fin 3]], 1 := [[Fin 9, Fin 9, Fin 9]]), next_ref = 2\<rparr> \<and>
   arrays \<lparr>arrays = (\<lambda>r. [])(0 := [[Fin 1, Fin 2, Fin 3]], 1 := [[Fin 9, Fin 9, Fin 9]]), next_ref = 2\<rparr> 0
     = [[Fin 1, Fin 2, Fin 3]]"
proof -
  have a: "(0::nat) < next_ref \<lparr>arrays = (\<lambda>r. [])(0 := [[Fin 1, Fin 2, Fin 3]]), next_ref = 1\<rparr>"
    by simp
  have b: "setitem 1 0 [Fin 9, Fin 9, Fin 9]
     (snd (get_poses_ref 0 \<lparr>arrays = (\<lambda>r. [])(0 := [[Fin 1, Fin 2, Fin 3]]), next_ref = 1\<rparr>)) =
     Inr \<lparr>arrays = (\<lambda>r. [])(0 := [[Fin 1, Fin 2, Fin 3]], 1 := [[Fin 9, Fin 9, Fin 9]]), next_ref = 2\<rparr>"
    by (simp add: setitem_def get_poses_ref_def ndarray_copy_def)
  have c: "fst (get_poses_ref 0 \<lparr>arrays = (\<lambda>r. [])(0 := [[Fin 1, Fin 2, Fin 3]]), next_ref = 1\<rparr>) = 1"
    by (simp add: get_poses_ref_def ndarray_copy_def)
  from get_poses_is_a_copy [OF a, of 0 "[Fin 9, Fin 9, Fin 9]"
      "\<lparr>arrays = (\<lambda>r. [])(0 := [[Fin 1, Fin 2, Fin 3]], 1 := [[Fin 9, Fin 9, Fin 9]]), next_ref = 2\<rparr>"]
  show ?thesis using a b c by simp
qed

end
